theory Spec2Isabelle
  imports Complex_Main "HOL-Library.Word"
begin

unbundle bit_operations_syntax

section \<open>Chimera: the Raman Whisper modem pipeline\<close>

text \<open>
  A shallow embedding of \<^verbatim>\<open>chimera/config.py\<close>, \<^verbatim>\<open>chimera/utils.py\<close> and
  \<^verbatim>\<open>chimera/pipeline.py\<close>. Python's unbounded integers are \<open>int\<close>, counts that index
  arrays are \<open>nat\<close>, NumPy arrays are lists (a matrix is the list of its rows), a
  \<open>uint8\<close> element is an \<open>int\<close> reduced \<open>mod 256\<close> where the code converts, and floats
  are idealised as \<open>real\<close>. Every \<open>raise\<close> of the source is an \<open>Inl\<close> of the result.
\<close>

subsection \<open>Errors\<close>

text \<open>
  The failures the code can raise. The first five are the fatal kinds of the
  specification; in the source \<open>InvalidArgument\<close>, \<open>ProtocolOverflow\<close> and \<open>MatrixShape\<close>
  are \<^verbatim>\<open>ValueError\<close>s, \<open>MissingBackend\<close> is \<^verbatim>\<open>ImportError\<close> and \<open>FrameSyncLost\<close> is
  \<^verbatim>\<open>RuntimeError\<close>. The others are what the Python runtime and NumPy raise by
  themselves: a missing attribute, a division by zero, operands whose shapes do not fit,
  a key missing from a dictionary.
\<close>

datatype error =
    InvalidArgument
  | ProtocolOverflow
  | MatrixShape
  | MissingBackend
  | FrameSyncLost
  | AttributeError
  | ZeroDivisionError
  | ShapeMismatch
  | KeyError

subsection \<open>\<^verbatim>\<open>config.py\<close>\<close>

record FrameLayout =
  total_symbols :: nat
  sync_symbols :: nat
  target_id_symbols :: nat
  command_type_symbols :: nat
  data_payload_symbols :: nat
  ecc_symbols :: nat

definition message_bits :: "FrameLayout \<Rightarrow> nat" where
  "message_bits l = data_payload_symbols l * 2"

definition ecc_bits :: "FrameLayout \<Rightarrow> nat" where
  "ecc_bits l = ecc_symbols l * 2"

definition codeword_bits :: "FrameLayout \<Rightarrow> nat" where
  "codeword_bits l = message_bits l + ecc_bits l"

definition frame_bits :: "FrameLayout \<Rightarrow> nat" where
  "frame_bits l = total_symbols l * 2"

definition default_FrameLayout :: FrameLayout where
  "default_FrameLayout =
     \<lparr>total_symbols = 128, sync_symbols = 16, target_id_symbols = 16,
      command_type_symbols = 16, data_payload_symbols = 64, ecc_symbols = 16\<rparr>"

record ProtocolConfig =
  carrier_freq_hz :: real
  qpsk_symbol_rate :: int
  qpsk_bandwidth_hz :: real
  fsk_bit_rate :: real
  fsk_freq_zero_hz :: real
  fsk_freq_one_hz :: real
  command_opcode :: int
  frame_layout :: FrameLayout
  sync_sequence_hex :: string
  target_id_hex :: string
  max_frames :: nat
  current_frame_shift :: nat
  total_frames_shift :: nat

definition default_ProtocolConfig :: ProtocolConfig where
  "default_ProtocolConfig =
     \<lparr>carrier_freq_hz = 12000, qpsk_symbol_rate = 16, qpsk_bandwidth_hz = 20,
      fsk_bit_rate = 1, fsk_freq_zero_hz = 11999, fsk_freq_one_hz = 12001,
      command_opcode = 1, frame_layout = default_FrameLayout,
      sync_sequence_hex = ''A5A5A5A5'', target_id_hex = ''DEADBEEF'',
      max_frames = 256, current_frame_shift = 16, total_frames_shift = 24\<rparr>"

record LDPCConfig =
  dv :: int
  dc :: int
  seed :: "int option"

definition default_LDPCConfig :: LDPCConfig where
  "default_LDPCConfig = \<lparr>dv = 2, dc = 10, seed = Some 42\<rparr>"

record SimulationConfig =
  sample_rate :: int
  bit_depth :: string
  snr_db :: real
  plaintext_source :: string
  rng_seed :: "int option"

definition default_SimulationConfig :: SimulationConfig where
  "default_SimulationConfig =
     \<lparr>sample_rate = 48000, bit_depth = ''FLOAT'', snr_db = 3,
      plaintext_source = ''This is a longer message demonstrating the protocol-compliant, rate-4/5 LDPC error correction. This signal simulates reception through a physically accurate AWGN channel where noise is added post-modulation. The decoder will now attempt to recover this exact message.'',
      rng_seed = None\<rparr>"

subsection \<open>\<^verbatim>\<open>utils.py\<close>\<close>

text \<open>
  \<^verbatim>\<open>format(value, "0{n}b")\<close> of a non-negative value: the shortest binary numeral
  (\<open>0\<close> is the one digit \<^verbatim>\<open>0\<close>), most significant digit first, filled with zeros on the
  left up to the width.
\<close>

function bin_digits :: "nat \<Rightarrow> int list" where
  "bin_digits v = (if v = 0 then [] else bin_digits (v div 2) @ [int (v mod 2)])"
  by pat_completeness auto
termination
  by (relation "measure id") auto

declare bin_digits.simps [simp del]

definition format_0b :: "nat \<Rightarrow> nat \<Rightarrow> int list" where
  "format_0b v width =
     (let ds = (if v = 0 then [0] else bin_digits v)
      in replicate (width - length ds) 0 @ ds)"

text \<open>
  \<^verbatim>\<open>int_to_bitstream\<close>. A negative value passes both tests of the source, and then
  \<^verbatim>\<open>format\<close> yields a minus sign that the conversion to \<open>uint8\<close> rejects with a
  \<^verbatim>\<open>ValueError\<close>.
\<close>

definition int_to_bitstream :: "int \<Rightarrow> int \<Rightarrow> error + int list" where
  "int_to_bitstream val num_bits =
     (if num_bits \<le> 0 then Inl InvalidArgument
      else if val \<ge> 2 ^ nat num_bits then Inl InvalidArgument
      else if val < 0 then Inl InvalidArgument
      else Inr (format_0b (nat val) (nat num_bits)))"

text \<open>\<^verbatim>\<open>np.unpackbits\<close>: every byte becomes its eight bits, most significant first.\<close>

definition byte_bits :: "nat \<Rightarrow> int list" where
  "byte_bits b = map (\<lambda>j. int ((b div 2 ^ (7 - j)) mod 2)) [0..<8]"

definition unpackbits :: "nat list \<Rightarrow> int list" where
  "unpackbits bs = concat (map byte_bits bs)"

definition hex_digit :: "char \<Rightarrow> nat option" where
  "hex_digit c =
     (let n = (of_char c :: nat)
      in if 48 \<le> n \<and> n \<le> 57 then Some (n - 48)
         else if 65 \<le> n \<and> n \<le> 70 then Some (n - 55)
         else if 97 \<le> n \<and> n \<le> 102 then Some (n - 87)
         else None)"

definition is_ascii_space :: "char \<Rightarrow> bool" where
  "is_ascii_space c = ((of_char c :: nat) \<in> {9, 10, 11, 12, 13, 32})"

text \<open>
  \<^verbatim>\<open>bytes.fromhex\<close>: two hexadecimal digits per byte, ASCII whitespace skipped between
  bytes, anything else (a lone digit too) is a \<^verbatim>\<open>ValueError\<close>, here \<open>None\<close>.
\<close>

fun bytes_fromhex :: "string \<Rightarrow> nat list option" where
  "bytes_fromhex [] = Some []"
| "bytes_fromhex [c] = (if is_ascii_space c then Some [] else None)"
| "bytes_fromhex (c # d # cs) =
     (if is_ascii_space c then bytes_fromhex (d # cs)
      else case (hex_digit c, hex_digit d) of
             (Some a, Some b) \<Rightarrow> map_option ((#) (16 * a + b)) (bytes_fromhex cs)
           | _ \<Rightarrow> None)"

text \<open>\<^verbatim>\<open>str.zfill\<close> on a string without a sign: zeros on the left up to the width.\<close>

definition zfill :: "string \<Rightarrow> nat \<Rightarrow> string" where
  "zfill s width = replicate (width - length s) (CHR ''0'') @ s"

definition hex_to_bitstream :: "string \<Rightarrow> int \<Rightarrow> error + int list" where
  "hex_to_bitstream hex_string expected_bits =
     (if expected_bits mod 8 \<noteq> 0 then Inl InvalidArgument
      else case bytes_fromhex (zfill hex_string (nat (expected_bits div 4))) of
             None \<Rightarrow> Inl InvalidArgument
           | Some raw \<Rightarrow> Inr (unpackbits raw))"

text \<open>
  \<^verbatim>\<open>string_to_bitstream\<close>: a \<open>string\<close> here is the list of the bytes of the UTF-8
  encoding of the Python text.
\<close>

definition string_to_bitstream :: "string \<Rightarrow> int list" where
  "string_to_bitstream text = unpackbits (map of_char text)"

subsection \<open>The matched filter of \<^verbatim>\<open>demodulate_and_decode\<close>\<close>

text \<open>
  \<^verbatim>\<open>np.arange(a, b)\<close> on integers, and the time axis of the root-raised-cosine taps,
  \<^verbatim>\<open>np.arange(-num_taps // 2, num_taps // 2 + 1) / samples_per_symbol\<close>. The unary minus
  binds tighter than \<^verbatim>\<open>//\<close>, and \<^verbatim>\<open>//\<close> rounds towards minus infinity, as \<open>div\<close> on
  \<open>int\<close> does.
\<close>

definition arange :: "int \<Rightarrow> int \<Rightarrow> int list" where
  "arange a b = map (\<lambda>i. a + int i) [0..<nat (b - a)]"

definition num_taps :: int where
  "num_taps = 101"

definition beta :: real where
  "beta = 0.35"

definition t_rrc :: "real \<Rightarrow> real list" where
  "t_rrc samples_per_symbol =
     map (\<lambda>i. real_of_int i / samples_per_symbol)
       (arange ((- num_taps) div 2) (num_taps div 2 + 1))"

definition np_sinc :: "real \<Rightarrow> real" where
  "np_sinc x = (if x = 0 then 1 else sin (pi * x) / (pi * x))"

text \<open>
  The tap formula, one value per point of the time axis, over the reals. Where the
  denominator vanishes the code computes an infinity or a NaN and HOL's division
  yields 0; the guard on NaN and the normalisation are left out, and only the number of
  taps is stated about this list.
\<close>

definition rrc_filter_taps :: "real \<Rightarrow> real list" where
  "rrc_filter_taps samples_per_symbol =
     map (\<lambda>t. np_sinc t * cos (pi * beta * t) / (1 - (2 * beta * t) ^ 2))
       (t_rrc samples_per_symbol)"

subsection \<open>\<^verbatim>\<open>pipeline.py\<close>: the LDPC matrices\<close>

type_synonym matrix = "int list list"

text \<open>
  The record \<^verbatim>\<open>LDPCMatrices\<close>; its fields \<^verbatim>\<open>H\<close>, \<^verbatim>\<open>G\<close>, \<^verbatim>\<open>message_bits\<close> and
  \<^verbatim>\<open>codeword_bits\<close> carry the prefix \<open>ldpc_\<close> here, as the last two names are also
  properties of the frame layout.
\<close>

record LDPCMatrices =
  ldpc_H :: matrix
  ldpc_G :: matrix
  ldpc_message_bits :: nat
  ldpc_codeword_bits :: nat

text \<open>
  \<^verbatim>\<open>pyldpc.make_ldpc(n, dv, dc, systematic=True, seed=seed)\<close> is a library outside the
  repository: it is a parameter, a function from the four arguments to the parity-check
  matrix it returns (or to the error it raises), and \<open>None\<close> where the import failed.
\<close>

type_synonym make_ldpc_backend = "nat \<Rightarrow> int \<Rightarrow> int \<Rightarrow> int option \<Rightarrow> error + matrix"

definition ncols :: "matrix \<Rightarrow> nat" where
  "ncols M = (case M of [] \<Rightarrow> 0 | r # _ \<Rightarrow> length r)"

definition column :: "matrix \<Rightarrow> nat \<Rightarrow> int list" where
  "column M j = map (\<lambda>r. r ! j) M"

text \<open>\<^verbatim>\<open>H[:, :k].T\<close>: the first \<open>k\<close> columns of \<open>H\<close> (all of them when there are fewer), as rows.\<close>

definition first_columns_T :: "matrix \<Rightarrow> nat \<Rightarrow> matrix" where
  "first_columns_T M k = map (column M) [0..<min k (ncols M)]"

definition identity :: "nat \<Rightarrow> matrix" where
  "identity k = map (\<lambda>i. map (\<lambda>j. if i = j then 1 else 0) [0..<k]) [0..<k]"

text \<open>\<^verbatim>\<open>np.concatenate((A, B), axis=1)\<close>: NumPy raises unless the row counts agree.\<close>

definition concatenate_axis1 :: "matrix \<Rightarrow> matrix \<Rightarrow> error + matrix" where
  "concatenate_axis1 A B =
     (if length A \<noteq> length B then Inl ShapeMismatch else Inr (map2 (@) A B))"

definition astype_uint8 :: "matrix \<Rightarrow> matrix" where
  "astype_uint8 M = map (map (\<lambda>x. x mod 256)) M"

text \<open>
  \<^verbatim>\<open>create_ldpc_matrices\<close>. \<^verbatim>\<open>G.shape\<close> is the number of rows of \<open>G\<close> and the width of
  the concatenation, \<open>k\<close> plus the number of rows of \<open>H\<close>.
\<close>

definition create_ldpc_matrices ::
  "ProtocolConfig \<Rightarrow> LDPCConfig \<Rightarrow> make_ldpc_backend option \<Rightarrow> error + LDPCMatrices" where
  "create_ldpc_matrices protocol config make_ldpc =
     (case make_ldpc of
        None \<Rightarrow> Inl MissingBackend
      | Some mk \<Rightarrow>
          let layout = frame_layout protocol;
              k_message_bits = message_bits layout;
              n_codeword_bits = codeword_bits layout
          in case mk n_codeword_bits (dv config) (dc config) (seed config) of
               Inl e \<Rightarrow> Inl e
             | Inr Hm \<Rightarrow>
                 let P = first_columns_T Hm k_message_bits;
                     I_k = identity k_message_bits
                 in case concatenate_axis1 I_k P of
                      Inl e \<Rightarrow> Inl e
                    | Inr C \<Rightarrow>
                        let Gm = map (map (\<lambda>x. x mod 2)) C
                        in if (length Gm, k_message_bits + length Hm)
                              \<noteq> (k_message_bits, n_codeword_bits)
                           then Inl MatrixShape
                           else Inr \<lparr>ldpc_H = astype_uint8 Hm, ldpc_G = astype_uint8 Gm,
                                     ldpc_message_bits = k_message_bits,
                                     ldpc_codeword_bits = n_codeword_bits\<rparr>)"

subsection \<open>\<^verbatim>\<open>pipeline.py\<close>: the frame assembler\<close>

text \<open>
  \<^verbatim>\<open>v @ M\<close> on \<open>uint8\<close> arrays: NumPy raises unless \<open>v\<close> has as many entries as \<open>M\<close> has
  rows, and the sums wrap around at 256. (A matrix without rows has no width as a list;
  its product is taken to be empty.)
\<close>

definition matmul_uint8 :: "int list \<Rightarrow> matrix \<Rightarrow> error + int list" where
  "matmul_uint8 v M =
     (if length v \<noteq> length M then Inl ShapeMismatch
      else Inr (map (\<lambda>j. (\<Sum>i\<leftarrow>[0..<length v]. v ! i * M ! i ! j) mod 256) [0..<ncols M]))"

text \<open>The line \<^verbatim>\<open>codeword = (message_chunk @ matrices.G % 2).astype(np.uint8)\<close>.\<close>

definition encode_chunk :: "LDPCMatrices \<Rightarrow> int list \<Rightarrow> error + int list" where
  "encode_chunk matrices message_chunk =
     (case matmul_uint8 message_chunk (ldpc_G matrices) of
        Inl e \<Rightarrow> Inl e
      | Inr product \<Rightarrow> Inr (map (\<lambda>x. (x mod 2) mod 256) product))"

text \<open>\<^verbatim>\<open>math.ceil(a / b)\<close> on lengths; the division raises on a zero divisor.\<close>

definition ceil_div :: "nat \<Rightarrow> nat \<Rightarrow> error + nat" where
  "ceil_div a b = (if b = 0 then Inl ZeroDivisionError else Inr ((a + b - 1) div b))"

definition command_type :: "ProtocolConfig \<Rightarrow> nat \<Rightarrow> nat \<Rightarrow> int" where
  "command_type protocol frame_idx total_frames =
     command_opcode protocol
       OR push_bit (current_frame_shift protocol) (int frame_idx)
       OR push_bit (total_frames_shift protocol) (int total_frames)"

text \<open>One pass of the loop over \<^verbatim>\<open>frame_idx\<close> (the log lines are left out).\<close>

definition build_frame ::
  "ProtocolConfig \<Rightarrow> LDPCMatrices \<Rightarrow> int list \<Rightarrow> nat \<Rightarrow> int list \<Rightarrow> int list \<Rightarrow> nat
     \<Rightarrow> error + int list" where
  "build_frame protocol matrices payload_bits total_frames sync_bits target_id_bits frame_idx =
     (let layout = frame_layout protocol
      in case int_to_bitstream (command_type protocol frame_idx total_frames)
                (int (command_type_symbols layout * 2)) of
           Inl e \<Rightarrow> Inl e
         | Inr command_bits \<Rightarrow>
             let mb = ldpc_message_bits matrices;
                 sliced = take mb (drop (frame_idx * mb) payload_bits);
                 message_chunk =
                   (if length sliced < mb then sliced @ replicate (mb - length sliced) 0
                    else sliced)
             in case encode_chunk matrices message_chunk of
                  Inl e \<Rightarrow> Inl e
                | Inr codeword \<Rightarrow>
                    let payload = take mb codeword; ecc = drop mb codeword
                    in Inr (sync_bits @ target_id_bits @ command_bits @ payload @ ecc))"

text \<open>The results of a loop whose passes may raise: the first error ends it.\<close>

fun collect :: "(error + 'a) list \<Rightarrow> error + 'a list" where
  "collect [] = Inr []"
| "collect (Inl e # rs) = Inl e"
| "collect (Inr x # rs) = (case collect rs of Inl e \<Rightarrow> Inl e | Inr xs \<Rightarrow> Inr (x # xs))"

definition build_full_bitstream ::
  "int list \<Rightarrow> ProtocolConfig \<Rightarrow> LDPCMatrices \<Rightarrow> error + (int list \<times> nat)" where
  "build_full_bitstream payload_bits protocol matrices =
     (let layout = frame_layout protocol
      in case (if length payload_bits \<noteq> 0
               then ceil_div (length payload_bits) (ldpc_message_bits matrices)
               else Inr 1) of
           Inl e \<Rightarrow> Inl e
         | Inr total_frames \<Rightarrow>
             if total_frames > max_frames protocol then Inl ProtocolOverflow
             else case hex_to_bitstream (sync_sequence_hex protocol)
                         (int (sync_symbols layout * 2)) of
                    Inl e \<Rightarrow> Inl e
                  | Inr sync_bits \<Rightarrow>
                      (case hex_to_bitstream (target_id_hex protocol)
                              (int (target_id_symbols layout * 2)) of
                         Inl e \<Rightarrow> Inl e
                       | Inr target_id_bits \<Rightarrow>
                           (case collect (map (build_frame protocol matrices payload_bits
                                                 total_frames sync_bits target_id_bits)
                                            [0..<total_frames]) of
                              Inl e \<Rightarrow> Inl e
                            | Inr frames \<Rightarrow> Inr (concat frames, total_frames))))"

subsection \<open>\<^verbatim>\<open>pipeline.py\<close>: the QPSK tables\<close>

text \<open>
  The dictionary \<^verbatim>\<open>qpsk_symbol_map\<close> and the array \<^verbatim>\<open>qpsk_phase_map\<close> of
  \<^verbatim>\<open>generate_modulated_signal\<close>, and the dictionary \<^verbatim>\<open>qpsk_reverse_bit_map\<close> of
  \<^verbatim>\<open>demodulate_and_decode\<close>.
\<close>

definition qpsk_symbol_map :: "int \<times> int \<rightharpoonup> nat" where
  "qpsk_symbol_map = [(0, 0) \<mapsto> 0, (0, 1) \<mapsto> 1, (1, 1) \<mapsto> 2, (1, 0) \<mapsto> 3]"

definition qpsk_phase_map :: "real list" where
  "qpsk_phase_map = map (\<lambda>c. c * pi / 2 + pi / 4) [1, 0, 2, 3]"

definition qpsk_reverse_bit_map :: "nat \<rightharpoonup> int list" where
  "qpsk_reverse_bit_map = [0 \<mapsto> [0, 1], 1 \<mapsto> [0, 0], 2 \<mapsto> [1, 1], 3 \<mapsto> [1, 0]]"

text \<open>
  \<^verbatim>\<open>np.argmin\<close>: the first index of a least entry. The phase slicer of
  \<^verbatim>\<open>demodulate_and_decode\<close>: \<^verbatim>\<open>np.angle(np.exp(1j * x))\<close> is \<open>Arg (cis x)\<close>, the
  representative of \<open>x\<close> in \<open>(-\<pi>, \<pi>]\<close>.
\<close>

fun argmin :: "real list \<Rightarrow> nat" where
  "argmin [] = 0"
| "argmin [x] = 0"
| "argmin (x # y # ys) = (let j = argmin (y # ys) in if x \<le> (y # ys) ! j then 0 else Suc j)"

definition phase_diff :: "real list \<Rightarrow> real \<Rightarrow> real list" where
  "phase_diff phase_map phase = map (\<lambda>p. Arg (cis (phase - p))) phase_map"

definition symbol_index :: "real list \<Rightarrow> real \<Rightarrow> nat" where
  "symbol_index phase_map phase = argmin (map abs (phase_diff phase_map phase))"

text \<open>
  The loop over \<^verbatim>\<open>received_phases\<close>: \<^verbatim>\<open>np.argmin\<close> raises on an empty phase map, the
  dictionary on an index beyond 3.
\<close>

fun slice_symbols :: "real list \<Rightarrow> real list \<Rightarrow> error + int list" where
  "slice_symbols phase_map [] = Inr []"
| "slice_symbols phase_map (phase # phases) =
     (if phase_map = [] then Inl InvalidArgument
      else case qpsk_reverse_bit_map (symbol_index phase_map phase) of
             None \<Rightarrow> Inl KeyError
           | Some pair \<Rightarrow>
               (case slice_symbols phase_map phases of
                  Inl e \<Rightarrow> Inl e
                | Inr bits \<Rightarrow> Inr (pair @ bits)))"

subsection \<open>\<^verbatim>\<open>pipeline.py\<close>: frame synchronisation and decoding\<close>

text \<open>
  The records \<^verbatim>\<open>EncodingResult\<close> and \<^verbatim>\<open>DemodulationResult\<close>, their fields prefixed
  with \<open>enc_\<close> and \<open>dem_\<close>. The diagnostics arrays are left out; the recovered message is
  kept as its bytes.
\<close>

record EncodingResult =
  enc_noisy_signal :: "real list"
  enc_clean_signal :: "real list"
  enc_qpsk_bitstream :: "int list"
  enc_payload_bits :: "int list"
  enc_qpsk_phase_map :: "real list"
  enc_total_frames :: nat
  enc_duration_seconds :: real
  enc_num_samples :: nat
  enc_logs :: "string list"

record DemodulationResult =
  dem_demodulated_bitstream :: "int list"
  dem_decoded_bitstream :: "int list"
  dem_recovered_message :: "nat list"
  dem_pre_fec_errors :: nat
  dem_pre_fec_ber :: real
  dem_post_fec_errors :: nat
  dem_post_fec_ber :: real
  dem_logs :: "string list"

text \<open>
  \<^verbatim>\<open>pyldpc.decode(H, y, snr)\<close> and the signal chain in front of the slicer (down-mixing,
  matched filter, timing and carrier recovery, \<^verbatim>\<open>np.angle\<close>) are parameters: the
  decoder a function from its three arguments to the bits it returns, the front end a
  function to the phases of the received symbols.
\<close>

type_synonym ldpc_decode_backend = "matrix \<Rightarrow> int list \<Rightarrow> real \<Rightarrow> error + int list"

type_synonym front_end =
  "EncodingResult \<Rightarrow> SimulationConfig \<Rightarrow> ProtocolConfig \<Rightarrow> error + real list"

text \<open>
  \<^verbatim>\<open>int(np.sum(a != b))\<close>: the number of positions where two arrays of one length
  differ; NumPy rejects arrays of different lengths (broadcasting is left out).
\<close>

definition count_errors :: "int list \<Rightarrow> int list \<Rightarrow> error + nat" where
  "count_errors a b =
     (if length a \<noteq> length b then Inl ShapeMismatch
      else Inr (length (filter (\<lambda>(x, y). x \<noteq> y) (zip a b))))"

text \<open>Python's \<^verbatim>\<open>/\<close> on two integers.\<close>

definition true_div :: "nat \<Rightarrow> nat \<Rightarrow> error + real" where
  "true_div a b = (if b = 0 then Inl ZeroDivisionError else Inr (real a / real b))"

text \<open>
  The search for the sync pattern:
  \<^verbatim>\<open>for idx in range(max(limit, 0))\<close> with \<^verbatim>\<open>limit = len(demodulated) - len(sync_bits)\<close>,
  the first \<open>idx\<close> whose window equals the pattern; \<open>None\<close> is \<^verbatim>\<open>sync_location == -1\<close>.
\<close>

definition find_sync :: "int list \<Rightarrow> int list \<Rightarrow> nat option" where
  "find_sync demodulated sync_bits =
     (let limit = int (length demodulated) - int (length sync_bits)
      in List.find (\<lambda>idx. take (length sync_bits) (drop idx demodulated) = sync_bits)
           [0..<nat (max limit 0)])"

text \<open>One pass of the loop over the received frames; \<^verbatim>\<open>continue\<close> adds no bits.\<close>

definition decode_frame ::
  "ldpc_decode_backend \<Rightarrow> LDPCMatrices \<Rightarrow> SimulationConfig \<Rightarrow> ProtocolConfig \<Rightarrow> int list
     \<Rightarrow> nat \<Rightarrow> error + int list" where
  "decode_frame ldpc_decode matrices sim_config protocol aligned_bitstream frame_idx =
     (let layout = frame_layout protocol;
          frame_size_bits = frame_bits layout;
          received = take frame_size_bits (drop (frame_idx * frame_size_bits) aligned_bitstream);
          payload_start =
            (sync_symbols layout + target_id_symbols layout + command_type_symbols layout) * 2;
          payload_end = payload_start + ldpc_codeword_bits matrices
      in if length received < payload_end then Inr []
         else ldpc_decode (ldpc_H matrices)
                (take (payload_end - payload_start) (drop payload_start received))
                (snr_db sim_config))"

text \<open>\<^verbatim>\<open>np.packbits\<close>: eight bits per byte, the last byte filled with zeros.\<close>

definition pack_byte :: "int list \<Rightarrow> nat" where
  "pack_byte bs = (\<Sum>j\<leftarrow>[0..<length bs]. if bs ! j \<noteq> 0 then 2 ^ (7 - j) else 0)"

function packbits :: "int list \<Rightarrow> nat list" where
  "packbits bs = (if bs = [] then [] else pack_byte (take 8 bs) # packbits (drop 8 bs))"
  by pat_completeness auto
termination
  by (relation "measure length") auto

declare packbits.simps [simp del]

definition rstrip_nul :: "nat list \<Rightarrow> nat list" where
  "rstrip_nul bs = rev (dropWhile (\<lambda>b. b = 0) (rev bs))"

text \<open>
  \<^verbatim>\<open>demodulate_and_decode\<close> from the demodulated bits on (the log lines are left out,
  and so is the removal of invalid UTF-8 sequences from the recovered bytes).
\<close>

definition decode_demodulated ::
  "ldpc_decode_backend \<Rightarrow> int list \<Rightarrow> EncodingResult \<Rightarrow> LDPCMatrices \<Rightarrow> SimulationConfig
     \<Rightarrow> ProtocolConfig \<Rightarrow> error + DemodulationResult" where
  "decode_demodulated ldpc_decode demodulated_bits encoding matrices sim_config protocol =
     (let sent = enc_qpsk_bitstream encoding;
          demodulated_bitstream =
            (if length demodulated_bits < length sent
             then demodulated_bits @ replicate (length sent - length demodulated_bits) 0
             else take (length sent) demodulated_bits)
      in case count_errors sent demodulated_bitstream of
           Inl e \<Rightarrow> Inl e
         | Inr pre_fec_errors \<Rightarrow>
        (case true_div pre_fec_errors (length sent) of
           Inl e \<Rightarrow> Inl e
         | Inr pre_fec_ber \<Rightarrow>
        (case hex_to_bitstream (sync_sequence_hex protocol)
                (int (sync_symbols (frame_layout protocol) * 2)) of
           Inl e \<Rightarrow> Inl e
         | Inr sync_bits \<Rightarrow>
        (case find_sync demodulated_bitstream sync_bits of
           None \<Rightarrow> Inl FrameSyncLost
         | Some sync_location \<Rightarrow>
             let aligned_bitstream = drop sync_location demodulated_bitstream;
                 frame_size_bits = frame_bits (frame_layout protocol)
             in if frame_size_bits = 0 then Inl ZeroDivisionError
                else
                  let num_frames = length aligned_bitstream div frame_size_bits
                  in case collect (map (decode_frame ldpc_decode matrices sim_config protocol
                                          aligned_bitstream) [0..<num_frames]) of
                       Inl e \<Rightarrow> Inl e
                     | Inr decoded \<Rightarrow>
                         let decoded_bitstream = map (\<lambda>x. x mod 256) (concat decoded);
                             trimmed_decoded =
                               take (length (enc_payload_bits encoding)) decoded_bitstream
                         in case count_errors (enc_payload_bits encoding) trimmed_decoded of
                              Inl e \<Rightarrow> Inl e
                            | Inr post_fec_errors \<Rightarrow>
                           (case true_div post_fec_errors
                                   (length (enc_payload_bits encoding)) of
                              Inl e \<Rightarrow> Inl e
                            | Inr post_fec_ber \<Rightarrow>
                                Inr \<lparr>dem_demodulated_bitstream = demodulated_bitstream,
                                     dem_decoded_bitstream = trimmed_decoded,
                                     dem_recovered_message =
                                       rstrip_nul (packbits trimmed_decoded),
                                     dem_pre_fec_errors = pre_fec_errors,
                                     dem_pre_fec_ber = pre_fec_ber,
                                     dem_post_fec_errors = post_fec_errors,
                                     dem_post_fec_ber = post_fec_ber,
                                     dem_logs = []\<rparr>)))))"

definition demodulate_and_decode ::
  "ldpc_decode_backend option \<Rightarrow> bool \<Rightarrow> front_end \<Rightarrow> EncodingResult \<Rightarrow> LDPCMatrices
     \<Rightarrow> SimulationConfig \<Rightarrow> ProtocolConfig \<Rightarrow> error + DemodulationResult" where
  "demodulate_and_decode ldpc_decode signal_backend received_phases encoding matrices
       sim_config protocol =
     (case ldpc_decode of
        None \<Rightarrow> Inl MissingBackend
      | Some decoder \<Rightarrow>
          if \<not> signal_backend then Inl MissingBackend
          else case received_phases encoding sim_config protocol of
                 Inl e \<Rightarrow> Inl e
               | Inr phases \<Rightarrow>
                   (case slice_symbols (enc_qpsk_phase_map encoding) phases of
                      Inl e \<Rightarrow> Inl e
                    | Inr demodulated_bits \<Rightarrow>
                        decode_demodulated decoder demodulated_bits encoding matrices
                          sim_config protocol))"

subsection \<open>\<^verbatim>\<open>pipeline.py\<close>: \<^verbatim>\<open>run_simulation\<close>\<close>

text \<open>
  Reading an attribute of a \<^verbatim>\<open>SimulationConfig\<close> by name: the frozen dataclass has the
  five fields of \<^verbatim>\<open>config.py\<close> and nothing else; any other name raises
  \<^verbatim>\<open>AttributeError\<close>.
\<close>

datatype pyvalue = PyInt int | PyFloat real | PyStr string | PyNone

definition truthy :: "pyvalue \<Rightarrow> bool" where
  "truthy v = (case v of PyInt i \<Rightarrow> i \<noteq> 0 | PyFloat x \<Rightarrow> x \<noteq> 0 | PyStr t \<Rightarrow> t \<noteq> [] | PyNone \<Rightarrow> False)"

definition getattr_SimulationConfig :: "SimulationConfig \<Rightarrow> string \<Rightarrow> error + pyvalue" where
  "getattr_SimulationConfig c name =
     (if name = ''sample_rate'' then Inr (PyInt (sample_rate c))
      else if name = ''bit_depth'' then Inr (PyStr (bit_depth c))
      else if name = ''snr_db'' then Inr (PyFloat (snr_db c))
      else if name = ''plaintext_source'' then Inr (PyStr (plaintext_source c))
      else if name = ''rng_seed'' then Inr (case rng_seed c of None \<Rightarrow> PyNone | Some i \<Rightarrow> PyInt i)
      else Inl AttributeError)"

record SimulationResult =
  res_encoding :: EncodingResult
  res_demodulation :: DemodulationResult
  res_matrices :: LDPCMatrices
  res_logs :: "string list"

text \<open>
  \<^verbatim>\<open>generate_modulated_signal\<close> is floating-point signal processing on top of the
  frame assembler; it is a parameter of \<^verbatim>\<open>run_simulation\<close> here, a function from its
  arguments (the random generator among them, as a seed) to the encoding it returns or
  the error it raises.
\<close>

type_synonym modulator =
  "SimulationConfig \<Rightarrow> ProtocolConfig \<Rightarrow> LDPCMatrices \<Rightarrow> string option \<Rightarrow> int option
     \<Rightarrow> error + EncodingResult"

text \<open>
  \<^verbatim>\<open>run_simulation\<close>. The arguments of the call of \<^verbatim>\<open>demodulate_and_decode\<close> are
  evaluated before the call, \<^verbatim>\<open>plot=sim_config.generate_plots\<close> among them. (The
  plotting that \<open>plot\<close> switches on only prints.)
\<close>

definition run_simulation ::
  "make_ldpc_backend option \<Rightarrow> modulator \<Rightarrow> ldpc_decode_backend option \<Rightarrow> bool \<Rightarrow> front_end
     \<Rightarrow> SimulationConfig option \<Rightarrow> ProtocolConfig option \<Rightarrow> LDPCConfig option
     \<Rightarrow> string option \<Rightarrow> int option \<Rightarrow> error + SimulationResult" where
  "run_simulation make_ldpc generate_modulated_signal ldpc_decode signal_backend received_phases
       sim_config_arg protocol_arg ldpc_config_arg plaintext rng =
     (let sim_config = (case sim_config_arg of None \<Rightarrow> default_SimulationConfig | Some c \<Rightarrow> c);
          protocol = (case protocol_arg of None \<Rightarrow> default_ProtocolConfig | Some c \<Rightarrow> c);
          ldpc_config = (case ldpc_config_arg of None \<Rightarrow> default_LDPCConfig | Some c \<Rightarrow> c)
      in case create_ldpc_matrices protocol ldpc_config make_ldpc of
           Inl e \<Rightarrow> Inl e
         | Inr matrices \<Rightarrow>
        (case generate_modulated_signal sim_config protocol matrices plaintext rng of
           Inl e \<Rightarrow> Inl e
         | Inr encoding \<Rightarrow>
        (case getattr_SimulationConfig sim_config ''generate_plots'' of
           Inl e \<Rightarrow> Inl e
         | Inr plot \<Rightarrow>
        (case demodulate_and_decode ldpc_decode signal_backend received_phases encoding
                matrices sim_config protocol of
           Inl e \<Rightarrow> Inl e
         | Inr demodulation \<Rightarrow>
             Inr \<lparr>res_encoding = encoding, res_demodulation = demodulation,
                  res_matrices = matrices,
                  res_logs = enc_logs encoding @ dem_logs demodulation\<rparr>))))"

subsection \<open>\<^verbatim>\<open>pipeline.py\<close>: joint timing and carrier recovery\<close>


record loop_gains =
  kp_carrier :: real
  ki_carrier :: real
  kp_timing :: real
  ki_timing :: real

definition default_gains :: loop_gains where
  "default_gains =
     \<lparr>kp_carrier = 0.000005, ki_carrier = 0.000005 ^ 2 / 4,
      kp_timing = 0.0001, ki_timing = 0.000001\<rparr>"






subsection \<open>Notions of the specification\<close>

text \<open>
  The \<open>w\<close>-bit big-endian rendering of an integer, in the specification's words: bit
  \<open>j\<close> of the rendering, counted from the left, is bit \<open>w - 1 - j\<close> of the value.
\<close>

definition big_endian_bits :: "nat \<Rightarrow> int \<Rightarrow> int list" where
  "big_endian_bits w x = map (\<lambda>j. if bit x (w - 1 - j) then 1 else 0) [0..<w]"

text \<open>An auxiliary form of \<^verbatim>\<open>format\<close>: the digits filled up to a width.\<close>

definition zero_pad :: "nat \<Rightarrow> nat \<Rightarrow> int list" where
  "zero_pad n v = replicate (n - length (bin_digits v)) 0 @ bin_digits v"

text \<open>
  The number of frames a payload needs with the default layout, in the specification's
  words: \<open>\<lceil>|payload| / 128\<rceil>\<close>, and 1 for the empty payload.
\<close>

definition frames_needed :: "int list \<Rightarrow> nat" where
  "frames_needed payload = (if length payload = 0 then 1 else (length payload + 127) div 128)"

text \<open>
  The round trip of a bit pair: the symbol of the pair by the forward table, the phase
  of that symbol by the phase map, the index the slicer chooses for that phase, and the
  bits of that index by the reverse table.
\<close>

definition round_trip :: "int \<times> int \<Rightarrow> int list option" where
  "round_trip pair =
     (case qpsk_symbol_map pair of
        None \<Rightarrow> None
      | Some s \<Rightarrow> qpsk_reverse_bit_map (symbol_index qpsk_phase_map (qpsk_phase_map ! s)))"


text \<open>
  The product \<open>G \<cdot> H\<^sup>T\<close> reduced mod 2, in the specification's words: one row per row
  of \<open>G\<close>, one entry per row of \<open>H\<close>.
\<close>

definition G_Ht_mod2 :: "LDPCMatrices \<Rightarrow> matrix" where
  "G_Ht_mod2 mats =
     map (\<lambda>g. map (\<lambda>h. (\<Sum>c\<leftarrow>[0..<length g]. g ! c * h ! c) mod 2) (ldpc_H mats)) (ldpc_G mats)"

subsection \<open>Example inputs\<close>

text \<open>
  A protocol with the smallest frame layout (\<open>k = 2\<close>, \<open>n = 4\<close>) and an LDPC
  configuration with \<open>dv = 2\<close>, \<open>dc = 4\<close>; the only \<open>(2, 4)\<close>-regular parity-check matrix
  with 4 columns is the 2-by-4 matrix of ones, whatever the seed. The matrices that
  \<^verbatim>\<open>create_ldpc_matrices\<close> builds from it. A backend for the default layout that returns
  the 32-by-\<open>n\<close> zero matrix.
\<close>

definition tiny_protocol :: ProtocolConfig where
  "tiny_protocol = default_ProtocolConfig
     \<lparr>frame_layout := \<lparr>total_symbols = 5, sync_symbols = 1, target_id_symbols = 1,
          command_type_symbols = 1, data_payload_symbols = 1, ecc_symbols = 1\<rparr>\<rparr>"

definition all_ones_backend :: make_ldpc_backend where
  "all_ones_backend n d_v d_c sd = Inr (replicate 2 (replicate n 1))"

definition tiny_matrices :: LDPCMatrices where
  "tiny_matrices = \<lparr>ldpc_H = [[1, 1, 1, 1], [1, 1, 1, 1]], ldpc_G = [[1, 0, 1, 1], [0, 1, 1, 1]],
            ldpc_message_bits = 2, ldpc_codeword_bits = 4\<rparr>"

definition tiny_ldpc :: LDPCConfig where
  "tiny_ldpc = \<lparr>dv = 2, dc = 4, seed = Some 42\<rparr>"

definition zero_backend :: make_ldpc_backend where
  "zero_backend n d_v d_c sd = Inr (replicate 32 (replicate n 0))"

section \<open>Properties\<close>

subsection \<open>Bit primitives\<close>

lemma zero_pad_Suc: "zero_pad (Suc n) v = zero_pad n (v div 2) @ [int (v mod 2)]"
proof (cases "v = 0")
  case True
  then show ?thesis
    by (simp add: zero_pad_def bin_digits.simps[of 0] replicate_append_same)
next
  case False
  then have "bin_digits v = bin_digits (v div 2) @ [int (v mod 2)]"
    by (subst bin_digits.simps) simp
  then show ?thesis
    by (simp add: zero_pad_def)
qed

lemma zero_pad_digits:
  "v < 2 ^ n \<Longrightarrow> zero_pad n v = map (\<lambda>j. int ((v div 2 ^ (n - 1 - j)) mod 2)) [0..<n]"
proof (induction n arbitrary: v)
  case 0
  then show ?case by (simp add: zero_pad_def bin_digits.simps[of 0])
next
  case (Suc n)
  from Suc.prems have "v div 2 < 2 ^ n" by simp
  from Suc.IH[OF this]
  have "zero_pad n (v div 2) = map (\<lambda>j. int ((v div 2 div 2 ^ (n - 1 - j)) mod 2)) [0..<n]" .
  also have "\<dots> = map (\<lambda>j. int ((v div 2 ^ (n - j)) mod 2)) [0..<n]"
  proof (rule map_cong[OF refl])
    fix j assume "j \<in> set [0..<n]"
    then have "n - j = Suc (n - 1 - j)" by auto
    then show "int (v div 2 div 2 ^ (n - 1 - j) mod 2) = int (v div 2 ^ (n - j) mod 2)"
      by (simp add: div_mult2_eq)
  qed
  finally show ?case
    by (simp add: zero_pad_Suc)
qed

lemma format_0b_zero_pad: "0 < n \<Longrightarrow> format_0b v n = zero_pad n v"
  by (cases n) (auto simp: format_0b_def zero_pad_def Let_def bin_digits.simps[of 0] replicate_append_same)

lemma int_to_bitstream_big_endian:
  assumes "0 \<le> val" "val < 2 ^ n" "0 < n"
  shows "int_to_bitstream val (int n) = Inr (big_endian_bits n val)"
proof -
  from assms have lt: "nat val < 2 ^ n"
    by (simp add: nat_less_iff)
  have "format_0b (nat val) n = map (\<lambda>j. int ((nat val div 2 ^ (n - 1 - j)) mod 2)) [0..<n]"
    using assms(3) lt by (simp add: format_0b_zero_pad zero_pad_digits)
  also have "\<dots> = big_endian_bits n val"
    unfolding big_endian_bits_def
  proof (rule map_cong[OF refl])
    fix j
    have "int (nat val div 2 ^ (n - 1 - j)) = val div 2 ^ (n - 1 - j)"
      using assms(1) by (simp add: zdiv_int)
    then have "int (nat val div 2 ^ (n - 1 - j) mod 2) = val div 2 ^ (n - 1 - j) mod 2"
      by (simp add: zmod_int)
    then show "int (nat val div 2 ^ (n - 1 - j) mod 2) = (if bit val (n - 1 - j) then 1 else 0)"
      by (simp add: bit_iff_odd mod_2_eq_odd)
  qed
  finally show ?thesis
    using assms by (simp add: int_to_bitstream_def)
qed


subsection \<open>The generator matrix\<close>

lemma map2_append_nth:
  "length A = length B \<Longrightarrow> map2 (@) A B = map (\<lambda>i. A ! i @ B ! i) [0..<length A]"
  by (rule nth_equalityI) auto

lemma create_ldpc_matrices_Inr:
  assumes "create_ldpc_matrices protocol config backend = Inr mats"
  obtains mk Hm where
    "backend = Some mk"
    "mk (codeword_bits (frame_layout protocol)) (dv config) (dc config) (seed config) = Inr Hm"
    "message_bits (frame_layout protocol) \<le> ncols Hm"
    "message_bits (frame_layout protocol) + length Hm = codeword_bits (frame_layout protocol)"
    "ldpc_H mats = astype_uint8 Hm"
    "ldpc_G mats =
       map (\<lambda>i. map (\<lambda>x. x mod 2 mod 256)
                 (map (\<lambda>j. if i = j then 1 else 0) [0..<message_bits (frame_layout protocol)]
                  @ column Hm i))
         [0..<message_bits (frame_layout protocol)]"
    "ldpc_message_bits mats = message_bits (frame_layout protocol)"
    "ldpc_codeword_bits mats = codeword_bits (frame_layout protocol)"
proof -
  define k where "k = message_bits (frame_layout protocol)"
  define n where "n = codeword_bits (frame_layout protocol)"
  from assms obtain mk where mk: "backend = Some mk"
    by (cases backend) (auto simp: create_ldpc_matrices_def)
  from assms mk obtain Hm where Hm: "mk n (dv config) (dc config) (seed config) = Inr Hm"
    by (cases "mk n (dv config) (dc config) (seed config)")
       (auto simp: create_ldpc_matrices_def n_def Let_def)
  have len: "length (identity k) = k" "length (first_columns_T Hm k) = min k (ncols Hm)"
    by (simp_all add: identity_def first_columns_T_def)
  have le: "k \<le> ncols Hm"
  proof (rule ccontr)
    assume "\<not> k \<le> ncols Hm"
    then have "concatenate_axis1 (identity k) (first_columns_T Hm k) = Inl ShapeMismatch"
      by (simp add: concatenate_axis1_def len)
    with assms mk Hm show False
      by (simp add: create_ldpc_matrices_def n_def k_def Let_def)
  qed
  then have cat: "concatenate_axis1 (identity k) (first_columns_T Hm k)
     = Inr (map (\<lambda>i. map (\<lambda>j. if i = j then 1 else 0) [0..<k] @ column Hm i) [0..<k])"
    by (simp add: concatenate_axis1_def len map2_append_nth)
       (simp add: identity_def first_columns_T_def min_def)
  from assms mk Hm cat have rest:
    "k + length Hm = n"
    "mats = \<lparr>ldpc_H = astype_uint8 Hm,
       ldpc_G = astype_uint8 (map (map (\<lambda>x. x mod 2))
          (map (\<lambda>i. map (\<lambda>j. if i = j then 1 else 0) [0..<k] @ column Hm i) [0..<k])),
       ldpc_message_bits = k, ldpc_codeword_bits = n\<rparr>"
    by (auto simp: create_ldpc_matrices_def n_def[symmetric] k_def[symmetric] Let_def
             split: if_splits)
  show thesis
  proof (rule that[OF mk])
    show "mk (codeword_bits (frame_layout protocol)) (dv config) (dc config) (seed config) = Inr Hm"
      using Hm by (simp add: n_def)
    show "message_bits (frame_layout protocol) \<le> ncols Hm"
      using le by (simp add: k_def)
    show "message_bits (frame_layout protocol) + length Hm = codeword_bits (frame_layout protocol)"
      using rest(1) by (simp add: k_def n_def)
    show "ldpc_H mats = astype_uint8 Hm"
      using rest(2) by simp
    show "ldpc_G mats =
       map (\<lambda>i. map (\<lambda>x. x mod 2 mod 256)
                 (map (\<lambda>j. if i = j then 1 else 0) [0..<message_bits (frame_layout protocol)]
                  @ column Hm i))
         [0..<message_bits (frame_layout protocol)]"
      using rest(2) by (simp add: astype_uint8_def k_def comp_def)
    show "ldpc_message_bits mats = message_bits (frame_layout protocol)"
      using rest(2) by (simp add: k_def)
    show "ldpc_codeword_bits mats = codeword_bits (frame_layout protocol)"
      using rest(2) by (simp add: n_def)
  qed
qed


lemma sum_list_unit_column:
  fixes f :: "nat \<Rightarrow> int"
  assumes "j < k"
  shows "(\<Sum>i\<leftarrow>[0..<k]. f i * (if i = j then 1 else 0)) = f j"
proof -
  have "(\<Sum>i\<leftarrow>[0..<k]. f i * (if i = j then 1 else 0))
        = (\<Sum>i\<in>{0..<k}. f i * (if i = j then 1 else 0))"
    by (simp add: interv_sum_list_conv_sum_set_nat)
  also have "\<dots> = (\<Sum>i\<in>{0..<k}. if i = j then f i else 0)"
    by (rule sum.cong) auto
  also have "\<dots> = f j"
    using assms by (simp add: sum.delta)
  finally show ?thesis .
qed

lemma generator_systematic_entry:
  assumes "create_ldpc_matrices protocol config backend = Inr mats"
    and "i < message_bits (frame_layout protocol)" "j < message_bits (frame_layout protocol)"
  shows "ldpc_G mats ! i ! j = (if i = j then 1 else 0)"
proof (rule create_ldpc_matrices_Inr[OF assms(1)])
  fix mk Hm
  assume "ldpc_G mats =
       map (\<lambda>i. map (\<lambda>x. x mod 2 mod 256)
                 (map (\<lambda>j. if i = j then 1 else 0) [0..<message_bits (frame_layout protocol)]
                  @ column Hm i))
         [0..<message_bits (frame_layout protocol)]"
  with assms(2,3) show ?thesis
    by (simp add: nth_append)
qed

lemma generator_shape:
  assumes "create_ldpc_matrices protocol config backend = Inr mats"
  shows "length (ldpc_G mats) = message_bits (frame_layout protocol)"
    and "\<forall>row \<in> set (ldpc_G mats). length row = codeword_bits (frame_layout protocol)"
  by (rule create_ldpc_matrices_Inr[OF assms], auto simp: column_def)+

lemma generator_ncols:
  assumes "create_ldpc_matrices protocol config backend = Inr mats"
    and "0 < message_bits (frame_layout protocol)"
  shows "ncols (ldpc_G mats) = codeword_bits (frame_layout protocol)"
proof -
  from generator_shape[OF assms(1)] assms(2)
  obtain r rs where "ldpc_G mats = r # rs" "length r = codeword_bits (frame_layout protocol)"
    by (cases "ldpc_G mats") auto
  then show ?thesis by (simp add: ncols_def)
qed

text \<open>
  C8. For every message \<open>m\<close> of \<open>k\<close> bits, the codeword \<open>m \<cdot> G mod 2\<close> computed by the
  frame assembler with the generator matrix that \<^verbatim>\<open>create_ldpc_matrices\<close> built starts
  with \<open>m\<close> itself. This holds for every frame layout (the default has \<open>k = 128\<close>) and
  every parity-check matrix the backend returns.
\<close>

theorem codeword_starts_with_message:
  assumes "create_ldpc_matrices protocol config backend = Inr mats"
    and "length m = message_bits (frame_layout protocol)"
    and "set m \<subseteq> {0, 1}"
  shows "\<exists>c. encode_chunk mats m = Inr c
             \<and> take (message_bits (frame_layout protocol)) c = m"
proof -
  define k where "k = message_bits (frame_layout protocol)"
  have lenG: "length (ldpc_G mats) = k"
    using generator_shape(1)[OF assms(1)] by (simp add: k_def)
  define c where "c = map (\<lambda>j. ((\<Sum>i\<leftarrow>[0..<k]. m ! i * ldpc_G mats ! i ! j) mod 256) mod 2 mod 256)
                         [0..<ncols (ldpc_G mats)]"
  have enc: "encode_chunk mats m = Inr c"
    using assms(2) lenG by (simp add: encode_chunk_def matmul_uint8_def c_def k_def comp_def)
  have wide: "k \<le> ncols (ldpc_G mats)"
  proof (cases "k = 0")
    case False
    then show ?thesis
      using generator_ncols[OF assms(1)] by (simp add: k_def codeword_bits_def)
  qed simp
  have entry: "c ! j = m ! j" if "j < k" for j
  proof -
    have "(\<Sum>i\<leftarrow>[0..<k]. m ! i * ldpc_G mats ! i ! j)
          = (\<Sum>i\<leftarrow>[0..<k]. m ! i * (if i = j then 1 else 0))"
      using that generator_systematic_entry[OF assms(1)]
      by (intro arg_cong[where f = sum_list] map_cong refl) (simp add: k_def)
    also have "\<dots> = m ! j"
      using that by (rule sum_list_unit_column)
    finally have s: "(\<Sum>i\<leftarrow>[0..<k]. m ! i * ldpc_G mats ! i ! j) = m ! j" .
    have "m ! j \<in> set m"
      using assms(2) that by (simp add: k_def)
    with assms(3) have "m ! j \<in> {0, 1}"
      by blast
    then have "m ! j mod 256 mod 2 mod 256 = m ! j"
      by auto
    with s that wide show ?thesis
      by (simp add: c_def)
  qed
  have "take k c = m"
    using wide assms(2) entry by (intro nth_equalityI) (auto simp: c_def k_def)
  with enc show ?thesis
    by (auto simp: k_def)
qed

lemma tiny_layout_bits:
  "message_bits (frame_layout tiny_protocol) = 2" "codeword_bits (frame_layout tiny_protocol) = 4"
  by (simp_all add: tiny_protocol_def message_bits_def codeword_bits_def ecc_bits_def)

lemma tiny_created:
  "create_ldpc_matrices tiny_protocol tiny_ldpc (Some all_ones_backend) = Inr tiny_matrices"
  by (simp add: create_ldpc_matrices_def tiny_protocol_def default_ProtocolConfig_def
        tiny_ldpc_def tiny_matrices_def all_ones_backend_def message_bits_def
        codeword_bits_def ecc_bits_def first_columns_T_def ncols_def column_def identity_def
        concatenate_axis1_def astype_uint8_def eval_nat_numeral upt_conv_Cons)

theorem codeword_starts_with_message_witness:
  "create_ldpc_matrices tiny_protocol tiny_ldpc (Some all_ones_backend) = Inr tiny_matrices
   \<and> length [1, 0 :: int] = message_bits (frame_layout tiny_protocol)
   \<and> set [1, 0 :: int] \<subseteq> {0, 1}
   \<and> take (message_bits (frame_layout tiny_protocol)) (projr (encode_chunk tiny_matrices [1, 0]))
       = [1, 0]"
proof -
  have l: "length [1, 0 :: int] = message_bits (frame_layout tiny_protocol)"
    by (simp add: tiny_layout_bits)
  have s: "set [1, 0 :: int] \<subseteq> {0, 1}"
    by simp
  from codeword_starts_with_message[OF tiny_created l s] tiny_created l s show ?thesis
    by auto
qed

lemma even_weighted_sum:
  fixes g s :: "nat \<Rightarrow> int"
  assumes "\<forall>c \<in> A. odd (s c)" "finite A"
  shows "even (\<Sum>c\<in>A. g c * s c) \<longleftrightarrow> even (\<Sum>c\<in>A. g c)"
  using assms(2,1) by (induction A) auto

lemma even_sum_of_evens:
  fixes f :: "nat \<Rightarrow> int"
  assumes "\<forall>i \<in> A. even (f i)" "finite A"
  shows "even (\<Sum>i\<in>A. f i)"
  using assms(2,1) by (induction A) auto


lemma even_sum_cong:
  fixes f g :: "nat \<Rightarrow> int"
  assumes "\<forall>i \<in> A. even (f i) \<longleftrightarrow> even (g i)" "finite A"
  shows "even (\<Sum>i\<in>A. f i) \<longleftrightarrow> even (\<Sum>i\<in>A. g i)"
  using assms(2,1) by (induction A) auto

lemma even_mod_256 [simp]: "even (x mod 256) \<longleftrightarrow> even x" for x :: int
proof -
  have "x mod 256 mod 2 = x mod 2"
    by (rule mod_mod_cancel) simp
  then show ?thesis
    by (simp only: even_iff_mod_2_eq_zero)
qed

lemma generator_row:
  assumes "create_ldpc_matrices protocol config (Some mk) = Inr mats"
    and "mk (codeword_bits (frame_layout protocol)) (dv config) (dc config) (seed config) = Inr Hm"
    and "j < message_bits (frame_layout protocol)"
  shows "ldpc_G mats ! j =
           map (\<lambda>x. x mod 2 mod 256)
             (map (\<lambda>c. if j = c then 1 else 0) [0..<message_bits (frame_layout protocol)]
              @ column Hm j)"
    and "ldpc_H mats = astype_uint8 Hm"
    and "message_bits (frame_layout protocol) + length Hm = codeword_bits (frame_layout protocol)"
    and "length (ldpc_G mats) = message_bits (frame_layout protocol)"
proof -
  show "ldpc_G mats ! j =
           map (\<lambda>x. x mod 2 mod 256)
             (map (\<lambda>c. if j = c then 1 else 0) [0..<message_bits (frame_layout protocol)]
              @ column Hm j)"
    by (rule create_ldpc_matrices_Inr[OF assms(1)]) (use assms(2,3) in simp)
  show "ldpc_H mats = astype_uint8 Hm"
    by (rule create_ldpc_matrices_Inr[OF assms(1)]) (use assms(2,3) in simp)
  show "message_bits (frame_layout protocol) + length Hm = codeword_bits (frame_layout protocol)"
    by (rule create_ldpc_matrices_Inr[OF assms(1)]) (use assms(2,3) in simp)
  show "length (ldpc_G mats) = message_bits (frame_layout protocol)"
    by (rule create_ldpc_matrices_Inr[OF assms(1)]) (use assms(2,3) in simp)
qed

text \<open>
  What the construction relies on: when the last \<open>n - k\<close> columns of \<open>H\<close> form the
  identity matrix, every entry of \<open>G \<cdot> H\<^sup>T\<close> mod 2 is zero.
\<close>

lemma identity_block_generator_orthogonal:
  assumes created: "create_ldpc_matrices protocol config (Some mk) = Inr mats"
    and backend: "mk (codeword_bits (frame_layout protocol)) (dv config) (dc config) (seed config)
                    = Inr Hm"
    and rect: "\<forall>h \<in> set Hm. length h = codeword_bits (frame_layout protocol)"
    and block: "\<forall>i < length Hm. \<forall>u < length Hm.
                  Hm ! i ! (u + message_bits (frame_layout protocol)) = (if i = u then 1 else 0)"
    and j: "j < message_bits (frame_layout protocol)" and i: "i < length Hm"
  shows "G_Ht_mod2 mats ! j ! i = 0"
proof -
  define k where "k = message_bits (frame_layout protocol)"
  define n where "n = codeword_bits (frame_layout protocol)"
  define r where "r = length Hm"
  define g where "g = ldpc_G mats ! j"
  define h where "h = ldpc_H mats ! i"
  note row = generator_row[OF created backend j, folded k_def n_def r_def g_def]
  have kn: "k + r = n" using row(3) .
  have jk: "j < k" using j by (simp add: k_def)
  have ir: "i < r" using i by (simp add: r_def)
  have len_g: "length g = n"
    using row(1) kn by (simp add: column_def r_def)
  have g_left: "g ! c = (if j = c then 1 else 0)" if "c < k" for c
    using that by (simp add: row(1) nth_append)
  have g_right: "g ! (u + k) = Hm ! u ! j mod 2 mod 256" if "u < r" for u
    using that by (simp add: row(1) nth_append column_def r_def)
  have "Hm ! i \<in> set Hm"
    using ir by (simp add: r_def)
  with rect have len_h: "length (Hm ! i) = n"
    by (simp add: n_def)
  have h_entry: "h ! c = Hm ! i ! c mod 256" if "c < n" for c
    using that ir len_h by (simp add: h_def row(2) astype_uint8_def r_def)
  have "(\<Sum>c\<in>{0..<n}. g ! c * h ! c)
          = (\<Sum>c\<in>{0..<k}. g ! c * h ! c) + (\<Sum>c\<in>{k..<n}. g ! c * h ! c)"
    using kn by (intro sum.atLeastLessThan_concat[symmetric]) simp_all
  moreover have "(\<Sum>c\<in>{0..<k}. g ! c * h ! c) = (\<Sum>c\<in>{0..<k}. if j = c then h ! c else 0)"
    by (rule sum.cong) (simp_all add: g_left)
  moreover have "\<dots> = h ! j"
    using jk by simp
  moreover have "(\<Sum>c\<in>{k..<n}. g ! c * h ! c) = (\<Sum>u\<in>{0..<r}. g ! (u + k) * h ! (u + k))"
    using sum.shift_bounds_nat_ivl[of "\<lambda>c. g ! c * h ! c" 0 k r] kn by (simp add: add.commute)
  moreover have "\<dots> = (\<Sum>u\<in>{0..<r}. if i = u then Hm ! u ! j mod 2 mod 256 else 0)"
  proof (rule sum.cong)
    fix u assume "u \<in> {0..<r}"
    then have u: "u < r" by simp
    then have "h ! (u + k) = (if i = u then 1 else 0)"
      using block ir kn by (simp add: h_entry r_def k_def)
    with u show "g ! (u + k) * h ! (u + k) = (if i = u then Hm ! u ! j mod 2 mod 256 else 0)"
      by (simp add: g_right)
  qed simp
  moreover have "\<dots> = Hm ! i ! j mod 2 mod 256"
    using ir by simp
  ultimately have "(\<Sum>c\<in>{0..<n}. g ! c * h ! c) = h ! j + Hm ! i ! j mod 2 mod 256"
    by simp
  also have "h ! j = Hm ! i ! j mod 256"
    using jk kn by (intro h_entry) simp
  finally have "even (\<Sum>c\<in>{0..<n}. g ! c * h ! c)"
    by simp
  moreover have "i < length (ldpc_H mats)"
    using ir by (simp add: row(2) astype_uint8_def r_def)
  ultimately show ?thesis
    using jk row(4)
    by (simp add: G_Ht_mod2_def g_def[symmetric] h_def[symmetric] len_g
          interv_sum_list_conv_sum_set_nat k_def)
qed

text \<open>
  C2. Every row of \<open>G \<cdot> H\<^sup>T\<close> mod 2 is said to be zero whenever the matrices are built.
  \<^verbatim>\<open>create_ldpc_matrices\<close> takes \<open>P\<close> from the first \<open>k\<close> columns of \<open>H\<close>, which is a
  generator only for an \<open>H\<close> that ends in an identity block. For a regular matrix of
  Gallager's construction with an even column weight (every column has an odd number of
  ones among the first \<open>t\<close> rows, the first block, and an even number in all), no row of
  \<open>G\<close> is orthogonal to \<open>H\<close>: every row \<open>j\<close> of the product has an entry 1 among its
  first \<open>t\<close> entries.
\<close>

theorem gallager_generator_not_orthogonal:
  assumes created: "create_ldpc_matrices protocol config (Some mk) = Inr mats"
    and backend: "mk (codeword_bits (frame_layout protocol)) (dv config) (dc config) (seed config)
                    = Inr Hm"
    and rect: "\<forall>h \<in> set Hm. length h = codeword_bits (frame_layout protocol)"
    and block: "t \<le> length Hm"
      "\<forall>c < codeword_bits (frame_layout protocol). odd (\<Sum>i\<leftarrow>[0..<t]. Hm ! i ! c)"
    and weight: "\<forall>c < message_bits (frame_layout protocol).
                   even (\<Sum>i\<leftarrow>[0..<length Hm]. Hm ! i ! c)"
    and j: "j < message_bits (frame_layout protocol)"
  shows "\<exists>i < t. G_Ht_mod2 mats ! j ! i = 1"
proof -
  define k where "k = message_bits (frame_layout protocol)"
  define n where "n = codeword_bits (frame_layout protocol)"
  define r where "r = length Hm"
  define g where "g = ldpc_G mats ! j"
  define h where "h = (\<lambda>i. ldpc_H mats ! i)"
  note row = generator_row[OF created backend j, folded k_def n_def r_def g_def]
  have kn: "k + r = n" using row(3) .
  have jk: "j < k" using j by (simp add: k_def)
  have len_g: "length g = n"
    using row(1) kn by (simp add: column_def r_def)
  have g_left: "g ! c = (if j = c then 1 else 0)" if "c < k" for c
    using that by (simp add: row(1) nth_append)
  have g_right: "g ! (u + k) = Hm ! u ! j mod 2 mod 256" if "u < r" for u
    using that by (simp add: row(1) nth_append column_def r_def)
  have h_entry: "h i ! c = Hm ! i ! c mod 256" if "i < r" "c < n" for i c
  proof -
    have "Hm ! i \<in> set Hm"
      using that(1) by (simp add: r_def)
    with rect have "length (Hm ! i) = n"
      by (simp add: n_def)
    with that show ?thesis
      by (simp add: h_def row(2) astype_uint8_def r_def)
  qed
  define E where "E = (\<lambda>i. \<Sum>c\<in>{0..<n}. g ! c * h i ! c)"
  define s where "s = (\<lambda>c. \<Sum>i\<in>{0..<t}. h i ! c)"
  have s_odd: "odd (s c)" if "c < n" for c
  proof -
    have "even (s c) \<longleftrightarrow> even (\<Sum>i\<in>{0..<t}. Hm ! i ! c)"
      unfolding s_def
    proof (rule even_sum_cong)
      show "\<forall>i\<in>{0..<t}. even (h i ! c) = even (Hm ! i ! c)"
        using h_entry that block(1) by (auto simp: r_def)
    qed simp
    moreover have "odd (\<Sum>i\<in>{0..<t}. Hm ! i ! c)"
      using block(2) that by (simp add: n_def interv_sum_list_conv_sum_set_nat)
    ultimately show ?thesis by simp
  qed
  have "(\<Sum>i\<in>{0..<t}. E i) = (\<Sum>c\<in>{0..<n}. g ! c * s c)"
    unfolding E_def s_def by (subst sum.swap) (simp add: sum_distrib_left)
  moreover have "even (\<Sum>c\<in>{0..<n}. g ! c * s c) \<longleftrightarrow> even (\<Sum>c\<in>{0..<n}. g ! c)"
    by (rule even_weighted_sum) (use s_odd in auto)
  moreover have "odd (\<Sum>c\<in>{0..<n}. g ! c)"
  proof -
    have "(\<Sum>c\<in>{0..<n}. g ! c) = (\<Sum>c\<in>{0..<k}. g ! c) + (\<Sum>c\<in>{k..<n}. g ! c)"
      using kn by (intro sum.atLeastLessThan_concat[symmetric]) simp_all
    moreover have "(\<Sum>c\<in>{0..<k}. g ! c) = (\<Sum>c\<in>{0..<k}. if j = c then 1 else 0)"
      by (rule sum.cong) (simp_all add: g_left)
    moreover have "\<dots> = 1"
      using jk by simp
    moreover have "(\<Sum>c\<in>{k..<n}. g ! c) = (\<Sum>u\<in>{0..<r}. g ! (u + k))"
      using sum.shift_bounds_nat_ivl[of "\<lambda>c. g ! c" 0 k r] kn by (simp add: add.commute)
    moreover have "even (\<Sum>u\<in>{0..<r}. g ! (u + k))"
    proof -
      have "even (\<Sum>u\<in>{0..<r}. g ! (u + k)) \<longleftrightarrow> even (\<Sum>u\<in>{0..<r}. Hm ! u ! j)"
        by (rule even_sum_cong) (simp_all add: g_right)
      moreover have "even (\<Sum>u\<in>{0..<r}. Hm ! u ! j)"
        using weight j by (simp add: r_def interv_sum_list_conv_sum_set_nat)
      ultimately show ?thesis by simp
    qed
    ultimately show ?thesis by simp
  qed
  ultimately have "odd (\<Sum>i\<in>{0..<t}. E i)"
    by simp
  have "\<not> (\<forall>i \<in> {0..<t}. even (E i))"
  proof
    assume "\<forall>i \<in> {0..<t}. even (E i)"
    then have "even (\<Sum>i\<in>{0..<t}. E i)"
      by (rule even_sum_of_evens) simp
    with \<open>odd (\<Sum>i\<in>{0..<t}. E i)\<close> show False
      by simp
  qed
  then obtain i where i: "i < t" "odd (E i)"
    by auto
  have "i < r" using i(1) block(1) by (simp add: r_def)
  then have len_H: "i < length (ldpc_H mats)"
    by (simp add: row(2) astype_uint8_def r_def)
  have "G_Ht_mod2 mats ! j ! i = E i mod 2"
    using jk len_H row(4)
    by (simp add: G_Ht_mod2_def g_def[symmetric] h_def[symmetric] len_g E_def
          interv_sum_list_conv_sum_set_nat k_def)
  with i show ?thesis
    by (auto simp: odd_iff_mod_2_eq_one)
qed

theorem gallager_generator_not_orthogonal_witness:
  "create_ldpc_matrices tiny_protocol tiny_ldpc (Some all_ones_backend) = Inr tiny_matrices
   \<and> G_Ht_mod2 tiny_matrices ! 0 ! 0 = 1"
proof -
  have b: "all_ones_backend (codeword_bits (frame_layout tiny_protocol)) (dv tiny_ldpc)
             (dc tiny_ldpc) (seed tiny_ldpc) = Inr [[1, 1, 1, 1], [1, 1, 1, 1]]"
    by (simp add: all_ones_backend_def tiny_layout_bits eval_nat_numeral)
  have "\<exists>i < 1. G_Ht_mod2 tiny_matrices ! 0 ! i = 1"
    by (rule gallager_generator_not_orthogonal[OF tiny_created b])
       (simp_all add: tiny_layout_bits less_Suc_eq eval_nat_numeral)
  with tiny_created show ?thesis
    by simp
qed

subsection \<open>The frame assembler\<close>

lemma collect_map_Inr:
  "(\<And>x. x \<in> set xs \<Longrightarrow> f x = Inr (g x)) \<Longrightarrow> collect (map f xs) = Inr (map g xs)"
  by (induction xs) auto

lemma concat_blocks_length:
  "\<forall>f \<in> set fs. length f = n \<Longrightarrow> length (concat fs) = length fs * n"
  by (induction fs) auto

lemma concat_blocks_nth:
  "\<forall>f \<in> set fs. length f = n \<Longrightarrow> i < length fs
     \<Longrightarrow> take n (drop (i * n) (concat fs)) = fs ! i"
proof (induction fs arbitrary: i)
  case Nil
  then show ?case by simp
next
  case (Cons f fs)
  show ?case
  proof (cases i)
    case 0
    with Cons.prems show ?thesis by simp
  next
    case (Suc i')
    with Cons.prems have "take n (drop (i' * n) (concat fs)) = fs ! i'"
      by (intro Cons.IH) auto
    with Suc Cons.prems show ?thesis
      by (simp add: add.commute)
  qed
qed

lemma sync_bits_default:
  "hex_to_bitstream ''A5A5A5A5'' 32 = Inr (big_endian_bits 32 0xA5A5A5A5)"
  by (simp add: hex_to_bitstream_def zfill_def hex_digit_def is_ascii_space_def
        unpackbits_def byte_bits_def big_endian_bits_def upt_conv_Cons bit_numeral_simps)

lemma target_id_bits_default:
  "hex_to_bitstream ''DEADBEEF'' 32 = Inr (big_endian_bits 32 0xDEADBEEF)"
  by (simp add: hex_to_bitstream_def zfill_def hex_digit_def is_ascii_space_def
        unpackbits_def byte_bits_def big_endian_bits_def upt_conv_Cons)

lemma command_type_default:
  "command_type default_ProtocolConfig i tf = 1 OR push_bit 16 (int i) OR push_bit 24 (int tf)"
  by (simp add: command_type_def default_ProtocolConfig_def)

lemma command_type_fits:
  assumes "i < tf" "tf \<le> 255"
  shows "0 \<le> command_type default_ProtocolConfig i tf"
    and "command_type default_ProtocolConfig i tf < 2 ^ 32"
proof -
  have a: "(1::int) < 2 ^ 32" by simp
  have "int i < 2 ^ 16" using assms by simp
  then have b: "push_bit 16 (int i) < (2::int) ^ 32"
    by (simp add: push_bit_eq_mult)
  have "int tf < 2 ^ 8" using assms by simp
  then have c: "push_bit 24 (int tf) < (2::int) ^ 32"
    by (simp add: push_bit_eq_mult)
  have nn: "0 \<le> (1::int)" "0 \<le> push_bit 16 (int i)" "0 \<le> push_bit 24 (int tf)"
    by simp_all
  show "0 \<le> command_type default_ProtocolConfig i tf"
    unfolding command_type_default using nn by simp
  have bc: "push_bit 16 (int i) OR push_bit 24 (int tf) < (2::int) ^ 32"
    by (rule OR_upper[OF nn(2) b c])
  show "command_type default_ProtocolConfig i tf < 2 ^ 32"
    unfolding command_type_default by (rule OR_upper[OF nn(1) a bc])
qed

lemma command_type_overflows:
  "command_type default_ProtocolConfig i 256 \<ge> 2 ^ 32"
proof -
  have "0 \<le> (1::int) OR push_bit 16 (int i)"
    by simp
  then have "push_bit 24 (int 256) \<le> push_bit 24 (int 256) OR (1 OR push_bit 16 (int i))"
    by (rule or_greater_eq)
  also have "\<dots> = 1 OR push_bit 16 (int i) OR push_bit 24 (int 256)"
    by (simp only: or.commute or.assoc)
  finally show ?thesis
    unfolding command_type_default by simp
qed

lemma default_layout_bits:
  "message_bits (frame_layout default_ProtocolConfig) = 128"
  "codeword_bits (frame_layout default_ProtocolConfig) = 160"
  "command_type_symbols (frame_layout default_ProtocolConfig) = 16"
  "sync_symbols (frame_layout default_ProtocolConfig) = 16"
  "target_id_symbols (frame_layout default_ProtocolConfig) = 16"
  "max_frames default_ProtocolConfig = 256"
  "sync_sequence_hex default_ProtocolConfig = ''A5A5A5A5''"
  "target_id_hex default_ProtocolConfig = ''DEADBEEF''"
  by (simp_all add: default_ProtocolConfig_def default_FrameLayout_def message_bits_def
        codeword_bits_def ecc_bits_def)

lemma encode_chunk_length:
  assumes "create_ldpc_matrices protocol config backend = Inr mats"
    and "length m = message_bits (frame_layout protocol)"
    and "0 < message_bits (frame_layout protocol)"
  shows "\<exists>c. encode_chunk mats m = Inr c \<and> length c = codeword_bits (frame_layout protocol)"
  using generator_shape(1)[OF assms(1)] generator_ncols[OF assms(1,3)] assms(2)
  by (simp add: encode_chunk_def matmul_uint8_def)

lemma build_frame_default:
  assumes "create_ldpc_matrices default_ProtocolConfig config backend = Inr mats"
    and "i < tf" "tf \<le> 255"
  shows "\<exists>cw. length cw = 160 \<and>
           build_frame default_ProtocolConfig mats payload tf sync target i
             = Inr (sync @ target @ big_endian_bits 32 (command_type default_ProtocolConfig i tf) @ cw)"
proof -
  have mb: "ldpc_message_bits mats = 128"
    by (rule create_ldpc_matrices_Inr[OF assms(1)]) (simp add: default_layout_bits)
  have cmd: "int_to_bitstream (command_type default_ProtocolConfig i tf) (int 32)
               = Inr (big_endian_bits 32 (command_type default_ProtocolConfig i tf))"
    using command_type_fits[OF assms(2,3)] by (intro int_to_bitstream_big_endian) simp_all
  define sliced where "sliced = take 128 (drop (i * 128) payload)"
  define chunk where
    "chunk = (if length sliced < 128 then sliced @ replicate (128 - length sliced) 0 else sliced)"
  have "length sliced \<le> 128"
    by (simp add: sliced_def)
  then have "length chunk = 128"
    by (simp add: chunk_def)
  with encode_chunk_length[OF assms(1), of chunk]
  obtain c where c: "encode_chunk mats chunk = Inr c" "length c = 160"
    by (auto simp: default_layout_bits)
  have "build_frame default_ProtocolConfig mats payload tf sync target i
          = (case encode_chunk mats chunk of
               Inl e \<Rightarrow> Inl e
             | Inr codeword \<Rightarrow>
                 Inr (sync @ target @ big_endian_bits 32 (command_type default_ProtocolConfig i tf)
                      @ take 128 codeword @ drop 128 codeword))"
    unfolding build_frame_def Let_def default_layout_bits mb chunk_def sliced_def
    using cmd by simp
  with c show ?thesis
    by auto
qed

lemma build_frame_256:
  "build_frame default_ProtocolConfig mats payload 256 sync target i = Inl InvalidArgument"
  using command_type_overflows[of i]
  by (simp add: build_frame_def default_layout_bits int_to_bitstream_def)

lemma build_full_bitstream_default:
  assumes "create_ldpc_matrices default_ProtocolConfig config backend = Inr mats"
  shows "build_full_bitstream payload default_ProtocolConfig mats =
          (if frames_needed payload > 256 then Inl ProtocolOverflow
           else case collect (map (build_frame default_ProtocolConfig mats payload
                                     (frames_needed payload)
                                     (big_endian_bits 32 0xA5A5A5A5)
                                     (big_endian_bits 32 0xDEADBEEF))
                                [0..<frames_needed payload]) of
                  Inl e \<Rightarrow> Inl e
                | Inr frames \<Rightarrow> Inr (concat frames, frames_needed payload))"
proof -
  have mb: "ldpc_message_bits mats = 128"
    by (rule create_ldpc_matrices_Inr[OF assms(1)]) (simp add: default_layout_bits)
  show ?thesis
    unfolding build_full_bitstream_def Let_def default_layout_bits mb
    by (simp add: ceil_div_def frames_needed_def sync_bits_default target_id_bits_default
          add.commute cong: sum.case_cong)
qed

lemma build_full_bitstream_256_frames:
  assumes "create_ldpc_matrices default_ProtocolConfig config backend = Inr mats"
    and "frames_needed payload = 256"
  shows "build_full_bitstream payload default_ProtocolConfig mats = Inl InvalidArgument"
  unfolding build_full_bitstream_default[OF assms(1)] assms(2)
  by (simp add: upt_conv_Cons[of 0 256] build_frame_256)

lemma build_full_bitstream_accepted:
  assumes "create_ldpc_matrices default_ProtocolConfig config backend = Inr mats"
    and "frames_needed payload \<le> 255"
  shows "\<exists>frames. build_full_bitstream payload default_ProtocolConfig mats
                     = Inr (concat frames, frames_needed payload)
           \<and> length frames = frames_needed payload
           \<and> (\<forall>i < frames_needed payload. \<exists>cw. length cw = 160 \<and>
                 frames ! i = big_endian_bits 32 0xA5A5A5A5 @ big_endian_bits 32 0xDEADBEEF
                   @ big_endian_bits 32 (command_type default_ProtocolConfig i (frames_needed payload))
                   @ cw)"
proof -
  define tf where "tf = frames_needed payload"
  define S where "S = big_endian_bits 32 0xA5A5A5A5"
  define T where "T = big_endian_bits 32 0xDEADBEEF"
  define f where "f = build_frame default_ProtocolConfig mats payload tf S T"
  define g where "g = (\<lambda>i. projr (f i))"
  have fr: "\<exists>cw. length cw = 160 \<and>
              f i = Inr (S @ T @ big_endian_bits 32 (command_type default_ProtocolConfig i tf) @ cw)"
    if "i < tf" for i
    unfolding f_def using assms(2) that
    by (intro build_frame_default[OF assms(1)]) (simp_all add: tf_def)
  have fg: "f i = Inr (g i)" if "i \<in> set [0..<tf]" for i
    using fr[of i] that by (auto simp: g_def)
  have "collect (map f [0..<tf]) = Inr (map g [0..<tf])"
    by (rule collect_map_Inr) (rule fg)
  with assms(2) have "build_full_bitstream payload default_ProtocolConfig mats
      = Inr (concat (map g [0..<tf]), tf)"
    unfolding build_full_bitstream_default[OF assms(1)]
    by (simp add: tf_def f_def S_def T_def)
  moreover have "\<exists>cw. length cw = 160 \<and>
      map g [0..<tf] ! i = S @ T @ big_endian_bits 32 (command_type default_ProtocolConfig i tf) @ cw"
    if "i < tf" for i
    using fr[OF that] that by (auto simp: g_def)
  ultimately show ?thesis
    unfolding tf_def[symmetric] S_def[symmetric] T_def[symmetric]
    by (intro exI[where x = "map g [0..<tf]"]) simp
qed

lemma build_full_bitstream_Inr_iff:
  assumes "create_ldpc_matrices default_ProtocolConfig config backend = Inr mats"
  shows "(\<exists>r. build_full_bitstream payload default_ProtocolConfig mats = Inr r)
           \<longleftrightarrow> frames_needed payload \<le> 255"
proof
  assume "\<exists>r. build_full_bitstream payload default_ProtocolConfig mats = Inr r"
  then obtain r where r: "build_full_bitstream payload default_ProtocolConfig mats = Inr r" ..
  show "frames_needed payload \<le> 255"
  proof (rule ccontr)
    assume "\<not> frames_needed payload \<le> 255"
    then consider "frames_needed payload = 256" | "frames_needed payload > 256"
      by linarith
    then show False
    proof cases
      case 1
      from build_full_bitstream_256_frames[OF assms 1] r show False by simp
    next
      case 2
      with r show False
        unfolding build_full_bitstream_default[OF assms] by simp
    qed
  qed
next
  assume "frames_needed payload \<le> 255"
  from build_full_bitstream_accepted[OF assms this] show
    "\<exists>r. build_full_bitstream payload default_ProtocolConfig mats = Inr r"
    by blast
qed

lemma big_endian_bits_length: "length (big_endian_bits w x) = w"
  by (simp add: big_endian_bits_def)

text \<open>
  C7. For every payload the frame assembler accepts (default protocol, matrices built
  by \<^verbatim>\<open>create_ldpc_matrices\<close>), the returned frame count is the one the payload needs,
  \<open>\<lceil>|payload| / 128\<rceil>\<close> (1 for the empty payload), the bit-stream has
  \<open>total_frames \<cdot> 256\<close> bits, and in every frame \<open>i\<close> the bits at offsets \<open>[0, 32)\<close> are the
  big-endian bits of \<open>0xA5A5A5A5\<close>, those at \<open>[32, 64)\<close> the big-endian bits of
  \<open>0xDEADBEEF\<close>, and those at \<open>[64, 96)\<close> the 32-bit big-endian rendering of
  \<open>opcode | (i << 16) | (total_frames << 24)\<close> with opcode 1.
\<close>

theorem frame_header_layout:
  assumes "create_ldpc_matrices default_ProtocolConfig config backend = Inr mats"
    and "build_full_bitstream payload default_ProtocolConfig mats = Inr (bits, total_frames)"
  shows "total_frames = frames_needed payload
         \<and> length bits = total_frames * 256
         \<and> (\<forall>i < total_frames.
               take 32 (drop (i * 256) bits) = big_endian_bits 32 0xA5A5A5A5
             \<and> take 32 (drop (i * 256 + 32) bits) = big_endian_bits 32 0xDEADBEEF
             \<and> take 32 (drop (i * 256 + 64) bits)
                 = big_endian_bits 32 (1 OR push_bit 16 (int i) OR push_bit 24 (int total_frames)))"
proof -
  have ok: "frames_needed payload \<le> 255"
    using build_full_bitstream_Inr_iff[OF assms(1), of payload] assms(2) by blast
  from build_full_bitstream_accepted[OF assms(1) ok] assms(2)
  obtain frames where
    bits: "bits = concat frames" and tf: "total_frames = frames_needed payload"
    and len: "length frames = total_frames"
    and fr: "\<And>i. i < total_frames \<Longrightarrow> \<exists>cw. length cw = 160 \<and>
                 frames ! i = big_endian_bits 32 0xA5A5A5A5 @ big_endian_bits 32 0xDEADBEEF
                   @ big_endian_bits 32 (command_type default_ProtocolConfig i total_frames) @ cw"
    by auto
  have all256: "\<forall>f \<in> set frames. length f = 256"
  proof
    fix f assume "f \<in> set frames"
    then obtain i where "i < total_frames" "f = frames ! i"
      using len by (auto simp: in_set_conv_nth)
    with fr[of i] show "length f = 256"
      by (auto simp: big_endian_bits_length)
  qed
  have "length bits = total_frames * 256"
    using concat_blocks_length[OF all256] by (simp add: bits len)
  moreover have
    "take 32 (drop (i * 256) bits) = big_endian_bits 32 0xA5A5A5A5
     \<and> take 32 (drop (i * 256 + 32) bits) = big_endian_bits 32 0xDEADBEEF
     \<and> take 32 (drop (i * 256 + 64) bits)
         = big_endian_bits 32 (1 OR push_bit 16 (int i) OR push_bit 24 (int total_frames))"
    if "i < total_frames" for i
  proof -
    from fr[OF that] obtain cw where
      f: "frames ! i = big_endian_bits 32 0xA5A5A5A5 @ big_endian_bits 32 0xDEADBEEF
                   @ big_endian_bits 32 (command_type default_ProtocolConfig i total_frames) @ cw"
      by blast
    have blk: "take 256 (drop (i * 256) bits) = frames ! i"
      using concat_blocks_nth[OF all256, of i] that len by (simp add: bits)
    have a: "take 32 (drop (i * 256) bits) = take 32 (take 256 (drop (i * 256) bits))"
      by simp
    have b: "take 32 (drop (i * 256 + 32) bits) = take 32 (drop 32 (take 256 (drop (i * 256) bits)))"
      by (simp add: drop_take add.commute)
    have c: "take 32 (drop (i * 256 + 64) bits) = take 32 (drop 64 (take 256 (drop (i * 256) bits)))"
      by (simp add: drop_take add.commute)
    show ?thesis
      unfolding a b c blk f
      by (simp add: big_endian_bits_length command_type_default)
  qed
  ultimately show ?thesis
    using tf by blast
qed

lemma ncols_replicate: "0 < r \<Longrightarrow> ncols (replicate r row) = length row"
  by (cases r) (simp_all add: ncols_def)

lemma zero_backend_created:
  "\<exists>mats. create_ldpc_matrices default_ProtocolConfig default_LDPCConfig (Some zero_backend)
            = Inr mats"
  by (simp add: create_ldpc_matrices_def default_layout_bits zero_backend_def
        concatenate_axis1_def identity_def first_columns_T_def ncols_replicate Let_def)

theorem frame_header_layout_witness:
  "(case create_ldpc_matrices default_ProtocolConfig default_LDPCConfig (Some zero_backend) of
      Inl e \<Rightarrow> False
    | Inr mats \<Rightarrow>
        (case build_full_bitstream (replicate 300 1) default_ProtocolConfig mats of
           Inl e \<Rightarrow> False
         | Inr (bits, total_frames) \<Rightarrow>
             total_frames = 3 \<and> length bits = 768
             \<and> take 32 bits = big_endian_bits 32 0xA5A5A5A5
             \<and> take 32 (drop 32 bits) = big_endian_bits 32 0xDEADBEEF
             \<and> take 32 (drop 64 bits) = big_endian_bits 32 0x03000001
             \<and> take 32 (drop 256 bits) = big_endian_bits 32 0xA5A5A5A5
             \<and> take 32 (drop 288 bits) = big_endian_bits 32 0xDEADBEEF
             \<and> take 32 (drop 320 bits) = big_endian_bits 32 0x03010001
             \<and> take 32 (drop 512 bits) = big_endian_bits 32 0xA5A5A5A5
             \<and> take 32 (drop 544 bits) = big_endian_bits 32 0xDEADBEEF
             \<and> take 32 (drop 576 bits) = big_endian_bits 32 0x03020001))"
proof -
  from zero_backend_created obtain mats where
    c: "create_ldpc_matrices default_ProtocolConfig default_LDPCConfig (Some zero_backend)
          = Inr mats" ..
  have n: "frames_needed (replicate 300 1) = 3"
    by (simp add: frames_needed_def)
  then have "frames_needed (replicate 300 1) \<le> 255"
    by simp
  from build_full_bitstream_accepted[OF c this] obtain bits where
    b: "build_full_bitstream (replicate 300 1) default_ProtocolConfig mats = Inr (bits, 3)"
    by (auto simp: n)
  have w: "(1::int) OR push_bit 16 (int 0) OR push_bit 24 (int 3) = 0x03000001"
    "(1::int) OR push_bit 16 (int 1) OR push_bit 24 (int 3) = 0x03010001"
    "(1::int) OR push_bit 16 (int 2) OR push_bit 24 (int 3) = 0x03020001"
    by simp_all
  note h = frame_header_layout[OF c b]
  from h have len: "length bits = 768"
    by simp
  from h have fr: "take 32 (drop (i * 256) bits) = big_endian_bits 32 0xA5A5A5A5
             \<and> take 32 (drop (i * 256 + 32) bits) = big_endian_bits 32 0xDEADBEEF
             \<and> take 32 (drop (i * 256 + 64) bits)
                 = big_endian_bits 32 (1 OR push_bit 16 (int i) OR push_bit 24 (int 3))"
    if "i < 3" for i
    using that by blast
  from fr[of 0] fr[of 1] fr[of 2] len c b show ?thesis
    by (simp add: w)
qed

text \<open>
  C4. The frame assembler is said to fail exactly when the frame count exceeds
  \<open>max_frames = 256\<close>. A payload of 32768 bits needs 256 frames, which passes that test,
  and is rejected all the same: the command word \<open>1 | (0 << 16) | (256 << 24)\<close> of its
  first frame does not fit into 32 bits, and \<^verbatim>\<open>int_to_bitstream\<close> raises.
\<close>

theorem frame_count_256_is_rejected:
  "frames_needed (replicate 32768 0) = 256
   \<and> \<not> frames_needed (replicate 32768 0) > max_frames default_ProtocolConfig
   \<and> build_full_bitstream (replicate 32768 0) default_ProtocolConfig
        \<lparr>ldpc_H = Hm, ldpc_G = Gm, ldpc_message_bits = 128, ldpc_codeword_bits = 160\<rparr>
      = Inl InvalidArgument"
  by (simp add: frames_needed_def build_full_bitstream_def default_layout_bits ceil_div_def
        sync_bits_default target_id_bits_default upt_conv_Cons[of 0 256] build_frame_256)

subsection \<open>The matched filter\<close>

text \<open>
  C9. The matched filter is said to have exactly 101 taps. The source sets
  \<^verbatim>\<open>num_taps = 101\<close> but builds the time axis as \<^verbatim>\<open>arange(-101 // 2, 101 // 2 + 1)\<close>,
  that is \<^verbatim>\<open>arange(-51, 51)\<close>: the filter has 102 taps, for every number of samples per
  symbol, on the indices \<open>-51, \<dots>, 50\<close>.
\<close>

theorem rrc_filter_has_102_taps:
  "length (rrc_filter_taps samples_per_symbol) = 102
   \<and> arange ((- num_taps) div 2) (num_taps div 2 + 1) = map (\<lambda>i. int i - 51) [0..<102]"
  by (simp add: rrc_filter_taps_def t_rrc_def arange_def num_taps_def)

subsection \<open>The Gray tables and the phase slicer\<close>

lemma argmin_less: "xs \<noteq> [] \<Longrightarrow> argmin xs < length xs"
  by (induction xs rule: argmin.induct) (auto simp: Let_def)

lemma argmin_first_zero:
  assumes "\<forall>x \<in> set xs. 0 < x" "\<forall>y \<in> set ys. 0 \<le> y"
  shows "argmin (xs @ 0 # ys) = length xs"
  using assms(1)
proof (induction xs)
  case Nil
  show ?case
  proof (cases ys)
    case (Cons y ys')
    have "argmin (y # ys') < length (y # ys')"
      by (rule argmin_less) simp
    then have "(y # ys') ! argmin (y # ys') \<in> set ys"
      unfolding Cons by (rule nth_mem)
    with assms(2) have "0 \<le> (y # ys') ! argmin (y # ys')"
      by blast
    then show ?thesis
      using Cons by (simp add: Let_def)
  qed simp
next
  case (Cons a xs)
  then have IH: "argmin (xs @ 0 # ys) = length xs" and a: "0 < a"
    by simp_all
  obtain z zs where t: "xs @ 0 # ys = z # zs"
    by (cases "xs @ 0 # ys") auto
  have "(xs @ 0 # ys) ! length xs = 0"
    by simp
  with IH a t show ?case
    by (simp add: Let_def)
qed

lemma Arg_cis_zero: "Arg 1 = 0"
  by (rule cis_Arg_unique[where x = 0]) simp_all

lemma Arg_cis_nonzero:
  assumes "cos x \<noteq> 1"
  shows "0 < \<bar>Arg (cis x)\<bar>"
proof -
  have "Arg (cis x) \<noteq> 0"
  proof
    assume z: "Arg (cis x) = 0"
    have "cis (Arg (cis x)) = sgn (cis x)"
      by (rule cis_Arg) simp
    with z have "cis x = 1"
      by (simp add: sgn_cis)
    then have "Re (cis x) = 1"
      by simp
    with assms show False
      by simp
  qed
  then show ?thesis by simp
qed

lemma symbol_index_at:
  assumes "i < length pm" and "\<forall>j < i. cos (pm ! i - pm ! j) \<noteq> 1"
  shows "symbol_index pm (pm ! i) = i"
proof -
  define f where "f = (\<lambda>p. \<bar>Arg (cis (pm ! i - p))\<bar>)"
  have "pm = take i pm @ pm ! i # drop (Suc i) pm"
    using assms(1) by (rule id_take_nth_drop)
  then have "map f pm = map f (take i pm) @ f (pm ! i) # map f (drop (Suc i) pm)"
    by (metis list.simps(9) map_append)
  moreover have "f (pm ! i) = 0"
    by (simp add: f_def Arg_cis_zero)
  ultimately have split: "map f pm = map f (take i pm) @ 0 # map f (drop (Suc i) pm)"
    by simp
  have before: "\<forall>x \<in> set (map f (take i pm)). 0 < x"
  proof
    fix x assume "x \<in> set (map f (take i pm))"
    then obtain j where "j < i" "x = f (pm ! j)"
      using assms(1) by (auto simp: in_set_conv_nth)
    with assms(2) have "cos (pm ! i - pm ! j) \<noteq> 1"
      by blast
    then have "0 < \<bar>Arg (cis (pm ! i - pm ! j))\<bar>"
      by (rule Arg_cis_nonzero)
    with \<open>x = f (pm ! j)\<close> show "0 < x"
      by (simp add: f_def)
  qed
  have after: "\<forall>y \<in> set (map f (drop (Suc i) pm)). 0 \<le> y"
    by (auto simp: f_def)
  have "symbol_index pm (pm ! i) = argmin (map f pm)"
    by (simp add: symbol_index_def phase_diff_def f_def comp_def)
  also have "\<dots> = length (map f (take i pm))"
    unfolding split by (rule argmin_first_zero[OF before after])
  also have "\<dots> = i"
    using assms(1) by simp
  finally show ?thesis .
qed

lemma symbol_index_exact:
  assumes "s < 4"
  shows "symbol_index qpsk_phase_map (qpsk_phase_map ! s) = s"
proof (rule symbol_index_at)
  show "s < length qpsk_phase_map"
    using assms by (simp add: qpsk_phase_map_def)
  have c: "cos (3 * pi / 2) = 0"
    using cos_3over2_pi by (simp add: mult.commute)
  have d: "pi / 4 - (pi / 2 + pi / 4) = - (pi / 2)"
    "pi + pi / 4 - (pi / 2 + pi / 4) = pi / 2"
    "pi + pi / 4 - pi / 4 = pi"
    "3 * pi / 2 + pi / 4 - (pi / 2 + pi / 4) = pi"
    "3 * pi / 2 + pi / 4 - pi / 4 = 3 * pi / 2"
    "3 * pi / 2 + pi / 4 - (pi + pi / 4) = pi / 2"
    by simp_all
  show "\<forall>j < s. cos (qpsk_phase_map ! s - qpsk_phase_map ! j) \<noteq> 1"
  proof (intro allI impI)
    fix j assume "j < s"
    with assms consider "s = 1" "j = 0" | "s = 2" "j = 0" | "s = 2" "j = 1"
      | "s = 3" "j = 0" | "s = 3" "j = 1" | "s = 3" "j = 2"
      by linarith
    then show "cos (qpsk_phase_map ! s - qpsk_phase_map ! j) \<noteq> 1"
      by cases (simp_all add: qpsk_phase_map_def d c)
  qed
qed

text \<open>
  C3. The round trip of a bit pair through the forward Gray table, the phase map, the
  slicer at the exact phase and the reverse table is said to return the pair. The slicer
  does return the index of the symbol, but the reverse table is not the inverse of the
  forward table: \<open>(0, 0)\<close> comes back as \<open>(0, 1)\<close> and \<open>(0, 1)\<close> as \<open>(0, 0)\<close>; only
  \<open>(1, 1)\<close> and \<open>(1, 0)\<close> come back unchanged.
\<close>

theorem gray_round_trip_swaps_pairs:
  "round_trip (0, 0) = Some [0, 1] \<and> round_trip (0, 1) = Some [0, 0]
   \<and> round_trip (1, 1) = Some [1, 1] \<and> round_trip (1, 0) = Some [1, 0]"
  using symbol_index_exact[of 0] symbol_index_exact[of 1] symbol_index_exact[of 2]
    symbol_index_exact[of 3]
  by (simp add: round_trip_def qpsk_symbol_map_def qpsk_reverse_bit_map_def)

subsection \<open>Frame synchronisation, decoding and the whole run\<close>

lemma sync_first_bit: "big_endian_bits 32 0xA5A5A5A5 ! 0 = 1"
  by (simp add: big_endian_bits_def upt_conv_Cons)

lemma default_frame_bits: "frame_bits (frame_layout default_ProtocolConfig) = 256"
  by (simp add: frame_bits_def default_ProtocolConfig_def default_FrameLayout_def)

lemma find_sync_after_zeros:
  "find_sync (replicate n 0 @ big_endian_bits 32 0xA5A5A5A5) (big_endian_bits 32 0xA5A5A5A5) = None"
proof -
  define S where "S = big_endian_bits 32 0xA5A5A5A5"
  have len: "length S = 32"
    by (simp add: S_def big_endian_bits_length)
  have "take (length S) (drop idx (replicate n 0 @ S)) \<noteq> S" if "idx < n" for idx
  proof
    assume eq: "take (length S) (drop idx (replicate n 0 @ S)) = S"
    have "take (length S) (drop idx (replicate n 0 @ S)) ! 0 = drop idx (replicate n 0 @ S) ! 0"
      by (rule nth_take) (simp add: len)
    also have "\<dots> = (replicate n 0 @ S) ! (idx + 0)"
      using that by (intro nth_drop) simp
    also have "\<dots> = (replicate n 0 @ S) ! idx"
      by simp
    also have "\<dots> = 0"
      using that by (simp add: nth_append)
    finally have "take (length S) (drop idx (replicate n 0 @ S)) ! 0 = 0" .
    then have "S ! 0 = 0"
      by (simp only: eq)
    with sync_first_bit show False
      by (simp add: S_def)
  qed
  then show ?thesis
    unfolding S_def[symmetric] by (simp add: find_sync_def len find_None_iff)
qed

text \<open>
  C6. The sync search is said to fail only when no index carries the pattern, the last
  possible index \<open>length - 32\<close> included. The loop runs over \<^verbatim>\<open>range(limit)\<close> and so
  never tries \<open>limit = length - 32\<close>: for a transmitted stream that starts with the
  sync word and a received stream of the same length that is zero up to the sync word in
  its last 32 bits, the pattern is present at the last index and
  the decoder raises \<open>FrameSyncLost\<close>.
\<close>

theorem sync_at_last_position_is_missed:
  "take 32 (drop (length rest) (replicate (length rest) 0 @ big_endian_bits 32 0xA5A5A5A5))
     = big_endian_bits 32 0xA5A5A5A5
   \<and> decode_demodulated decoder (replicate (length rest) 0 @ big_endian_bits 32 0xA5A5A5A5)
         (encoding\<lparr>enc_qpsk_bitstream := big_endian_bits 32 0xA5A5A5A5 @ rest\<rparr>)
         matrices sim_config default_ProtocolConfig
       = Inl FrameSyncLost"
proof -
  define S where "S = big_endian_bits 32 0xA5A5A5A5"
  have len: "length S = 32"
    by (simp add: S_def big_endian_bits_length)
  have "decode_demodulated decoder (replicate (length rest) 0 @ S)
         (encoding\<lparr>enc_qpsk_bitstream := S @ rest\<rparr>) matrices sim_config default_ProtocolConfig
       = Inl FrameSyncLost"
    unfolding decode_demodulated_def Let_def
    using find_sync_after_zeros[of "length rest"]
    by (simp add: len count_errors_def true_div_def default_layout_bits sync_bits_default
          S_def[symmetric])
  then show ?thesis
    by (simp add: S_def big_endian_bits_length)
qed

lemma find_sync_at_start:
  assumes "rest \<noteq> []"
  shows "find_sync (sync_bits @ rest) sync_bits = Some 0"
proof -
  from assms have "0 < length rest" by simp
  then have "[0..<length rest] = 0 # [1..<length rest]"
    by (simp add: upt_conv_Cons)
  then show ?thesis
    by (simp add: find_sync_def)
qed

lemma decode_frame_total:
  "\<exists>bits. decode_frame (\<lambda>Hm y snr. Inr (d Hm y snr)) matrices sim_config protocol aligned i
            = Inr bits"
  by (simp add: decode_frame_def Let_def)

text \<open>
  C5. With an empty payload the pipeline is said to complete. It does not: for every
  decoder, front end, matrices and configuration, \<^verbatim>\<open>demodulate_and_decode\<close> on an
  encoding with no payload bits ends in an error, and where the sync word is found at
  the start of an error-free stream and the decoder succeeds on every frame, the error
  is the division \<open>post_fec_errors / len(payload_bits)\<close> by zero.
\<close>

theorem empty_payload_is_never_decoded:
  "(\<exists>e. demodulate_and_decode ldpc_decode signal_backend received_phases
           (encoding\<lparr>enc_payload_bits := []\<rparr>) matrices sim_config protocol = Inl e)
   \<and> decode_demodulated (\<lambda>Hm y snr. Inr (d Hm y snr))
        (big_endian_bits 32 0xA5A5A5A5 @ x # rest)
        (encoding\<lparr>enc_qpsk_bitstream := big_endian_bits 32 0xA5A5A5A5 @ x # rest,
                  enc_payload_bits := []\<rparr>)
        matrices sim_config default_ProtocolConfig
      = Inl ZeroDivisionError"
proof
  have "\<exists>e. decode_demodulated dec bits (encoding\<lparr>enc_payload_bits := []\<rparr>) matrices
              sim_config protocol = Inl e" for dec bits
    unfolding decode_demodulated_def Let_def
    by (auto simp: true_div_def count_errors_def split: sum.splits option.splits)
  then show "\<exists>e. demodulate_and_decode ldpc_decode signal_backend received_phases
           (encoding\<lparr>enc_payload_bits := []\<rparr>) matrices sim_config protocol = Inl e"
    unfolding demodulate_and_decode_def
    by (auto split: sum.splits option.splits)
next
  define S where "S = big_endian_bits 32 0xA5A5A5A5"
  define dec where "dec = (\<lambda>Hm y snr. Inr (d Hm y snr) :: error + int list)"
  define aligned where "aligned = S @ x # rest"
  define f where "f = decode_frame dec matrices sim_config default_ProtocolConfig aligned"
  have "\<exists>bits. f i = Inr bits" for i
    unfolding f_def dec_def by (rule decode_frame_total)
  then have "f i = Inr (projr (f i))" for i
    by (metis sum.sel(2))
  then have col: "collect (map f xs) = Inr (map (\<lambda>i. projr (f i)) xs)" for xs
    by (intro collect_map_Inr)
  have "decode_demodulated dec (S @ x # rest)
        (encoding\<lparr>enc_qpsk_bitstream := S @ x # rest, enc_payload_bits := []\<rparr>)
        matrices sim_config default_ProtocolConfig = Inl ZeroDivisionError"
    unfolding decode_demodulated_def Let_def
    using find_sync_at_start[of "x # rest" S]
    by (simp add: count_errors_def true_div_def default_layout_bits sync_bits_default
          S_def[symmetric] default_frame_bits aligned_def[symmetric] f_def[symmetric] col)
  then show "decode_demodulated (\<lambda>Hm y snr. Inr (d Hm y snr))
        (big_endian_bits 32 0xA5A5A5A5 @ x # rest)
        (encoding\<lparr>enc_qpsk_bitstream := big_endian_bits 32 0xA5A5A5A5 @ x # rest,
                  enc_payload_bits := []\<rparr>)
        matrices sim_config default_ProtocolConfig
      = Inl ZeroDivisionError"
    by (simp add: S_def dec_def)
qed

text \<open>
  C1. \<^verbatim>\<open>run_simulation\<close> is said to return a result or fail with one of the fatal
  kinds, never by reading a configuration field that does not exist. It never returns:
  whenever the matrices are built and the modulator succeeds, it raises
  \<^verbatim>\<open>AttributeError\<close> on \<^verbatim>\<open>sim_config.generate_plots\<close>, a field \<^verbatim>\<open>SimulationConfig\<close> does
  not have; otherwise it passes on the error of the stage that failed.
\<close>

theorem run_simulation_never_returns:
  "run_simulation make_ldpc generate_modulated_signal ldpc_decode signal_backend received_phases
       sim_config_arg protocol_arg ldpc_config_arg plaintext rng =
     (case create_ldpc_matrices
             (case protocol_arg of None \<Rightarrow> default_ProtocolConfig | Some c \<Rightarrow> c)
             (case ldpc_config_arg of None \<Rightarrow> default_LDPCConfig | Some c \<Rightarrow> c) make_ldpc of
        Inl e \<Rightarrow> Inl e
      | Inr matrices \<Rightarrow>
          (case generate_modulated_signal
                  (case sim_config_arg of None \<Rightarrow> default_SimulationConfig | Some c \<Rightarrow> c)
                  (case protocol_arg of None \<Rightarrow> default_ProtocolConfig | Some c \<Rightarrow> c)
                  matrices plaintext rng of
             Inl e \<Rightarrow> Inl e
           | Inr encoding \<Rightarrow> Inl AttributeError))"
  by (simp add: run_simulation_def Let_def getattr_SimulationConfig_def
        split: sum.splits)

subsection \<open>Timing and carrier recovery on a silent input\<close>









end
